theory Spec2Isabelle
  imports Complex_Main "HOL-Library.Monad_Syntax" "HOL-Library.State_Monad"
begin

section \<open>Python numbers\<close>

text \<open>
  The drag model computes with Python floats and, where a negative float is raised to a
  fractional power, with Python complex numbers. Floats are idealised as reals (no
  rounding, no overflow), complex numbers as \<^typ>\<open>complex\<close>. An exception
  (ZeroDivisionError, ValueError of \<open>math.log10\<close> and \<open>math.asin\<close>, TypeError of
  an ordering comparison or of a \<open>math\<close> function on a complex number) is the value
  \<open>None\<close>; an operation on \<open>None\<close> is \<open>None\<close>, as the exception propagates
  through the enclosing expression.
\<close>

datatype pynum = Fl real | Cx complex

fun to_complex :: "pynum \<Rightarrow> complex" where
  "to_complex (Fl x) = complex_of_real x"
| "to_complex (Cx z) = z"

fun py_real :: "pynum \<Rightarrow> pynum" where
  "py_real (Fl x) = Fl x"
| "py_real (Cx z) = Fl (Re z)"

fun py_add :: "pynum \<Rightarrow> pynum \<Rightarrow> pynum" where
  "py_add (Fl x) (Fl y) = Fl (x + y)"
| "py_add (Fl x) (Cx w) = Cx (complex_of_real x + w)"
| "py_add (Cx z) b = Cx (z + to_complex b)"

fun py_sub :: "pynum \<Rightarrow> pynum \<Rightarrow> pynum" where
  "py_sub (Fl x) (Fl y) = Fl (x - y)"
| "py_sub (Fl x) (Cx w) = Cx (complex_of_real x - w)"
| "py_sub (Cx z) b = Cx (z - to_complex b)"

fun py_mul :: "pynum \<Rightarrow> pynum \<Rightarrow> pynum" where
  "py_mul (Fl x) (Fl y) = Fl (x * y)"
| "py_mul (Fl x) (Cx w) = Cx (complex_of_real x * w)"
| "py_mul (Cx z) b = Cx (z * to_complex b)"

text \<open>Division by a zero float or a zero complex number raises ZeroDivisionError.\<close>

fun py_div :: "pynum \<Rightarrow> pynum \<Rightarrow> pynum option" where
  "py_div (Fl x) (Fl y) = (if y = 0 then None else Some (Fl (x / y)))"
| "py_div (Fl x) (Cx w) = (if w = 0 then None else Some (Cx (complex_of_real x / w)))"
| "py_div (Cx z) b = (if to_complex b = 0 then None else Some (Cx (z / to_complex b)))"

text \<open>
  \<open>complex ** complex\<close> as CPython computes it: \<open>1\<close> for a zero exponent, an error
  for a zero base with a negative or complex exponent, and otherwise the polar form with
  the argument \<open>atan2(imag, real)\<close> of the base.
\<close>

definition complex_pow :: "complex \<Rightarrow> complex \<Rightarrow> complex option" where
  "complex_pow a b =
     (if b = 0 then Some 1
      else if a = 0 then (if Im b = 0 \<and> 0 \<le> Re b then Some 0 else None)
      else Some (complex_of_real (cmod a powr Re b / exp (Arg a * Im b))
                 * cis (Arg a * Re b + Im b * ln (cmod a))))"

text \<open>
  \<open>float ** float\<close>: ZeroDivisionError for \<open>0.0\<close> to a negative power; a negative
  base with a fractional exponent is handed to the complex power; everything else is a
  float.
\<close>

definition float_pow :: "real \<Rightarrow> real \<Rightarrow> pynum option" where
  "float_pow x y =
     (if x = 0 \<and> y < 0 then None
      else if x < 0 \<and> y \<noteq> of_int \<lfloor>y\<rfloor>
        then map_option Cx (complex_pow (complex_of_real x) (complex_of_real y))
      else if 0 < x then Some (Fl (x powr y))
      else if x = 0 then Some (Fl (if y = 0 then 1 else 0))
      else Some (Fl (power_int x \<lfloor>y\<rfloor>)))"

fun py_pow :: "pynum \<Rightarrow> pynum \<Rightarrow> pynum option" where
  "py_pow (Fl x) (Fl y) = float_pow x y"
| "py_pow (Fl x) (Cx w) = map_option Cx (complex_pow (complex_of_real x) w)"
| "py_pow (Cx z) b = map_option Cx (complex_pow z (to_complex b))"

fun py_log10 :: "pynum \<Rightarrow> pynum option" where
  "py_log10 (Fl x) = (if 0 < x then Some (Fl (log 10 x)) else None)"
| "py_log10 (Cx z) = None"

fun py_asin :: "pynum \<Rightarrow> pynum option" where
  "py_asin (Fl x) = (if - 1 \<le> x \<and> x \<le> 1 then Some (Fl (arcsin x)) else None)"
| "py_asin (Cx z) = None"

fun py_atan :: "pynum \<Rightarrow> pynum option" where
  "py_atan (Fl x) = Some (Fl (arctan x))"
| "py_atan (Cx z) = None"

text \<open>An ordering comparison with a complex operand raises TypeError.\<close>

fun py_le :: "pynum \<Rightarrow> pynum \<Rightarrow> bool option" where
  "py_le (Fl x) (Fl y) = Some (x \<le> y)"
| "py_le (Fl x) (Cx w) = None"
| "py_le (Cx z) b = None"

fun py_lt :: "pynum \<Rightarrow> pynum \<Rightarrow> bool option" where
  "py_lt (Fl x) (Fl y) = Some (x < y)"
| "py_lt (Fl x) (Cx w) = None"
| "py_lt (Cx z) b = None"

fun py_ge :: "pynum \<Rightarrow> pynum \<Rightarrow> bool option" where
  "py_ge (Fl x) (Fl y) = Some (x \<ge> y)"
| "py_ge (Fl x) (Cx w) = None"
| "py_ge (Cx z) b = None"

fun py_gt :: "pynum \<Rightarrow> pynum \<Rightarrow> bool option" where
  "py_gt (Fl x) (Fl y) = Some (x > y)"
| "py_gt (Fl x) (Cx w) = None"
| "py_gt (Cx z) b = None"

subsection \<open>Operations on results\<close>

definition fl :: "real \<Rightarrow> pynum option" where
  "fl x = Some (Fl x)"

definition padd :: "pynum option \<Rightarrow> pynum option \<Rightarrow> pynum option" where
  "padd a b = Option.bind a (\<lambda>x. Option.bind b (\<lambda>y. Some (py_add x y)))"

definition psub :: "pynum option \<Rightarrow> pynum option \<Rightarrow> pynum option" where
  "psub a b = Option.bind a (\<lambda>x. Option.bind b (\<lambda>y. Some (py_sub x y)))"

definition pmul :: "pynum option \<Rightarrow> pynum option \<Rightarrow> pynum option" where
  "pmul a b = Option.bind a (\<lambda>x. Option.bind b (\<lambda>y. Some (py_mul x y)))"

definition pdiv :: "pynum option \<Rightarrow> pynum option \<Rightarrow> pynum option" where
  "pdiv a b = Option.bind a (\<lambda>x. Option.bind b (\<lambda>y. py_div x y))"

definition ppow :: "pynum option \<Rightarrow> pynum option \<Rightarrow> pynum option" where
  "ppow a b = Option.bind a (\<lambda>x. Option.bind b (\<lambda>y. py_pow x y))"

definition plog10 :: "pynum option \<Rightarrow> pynum option" where
  "plog10 a = Option.bind a py_log10"

definition pasin :: "pynum option \<Rightarrow> pynum option" where
  "pasin a = Option.bind a py_asin"

definition patan :: "pynum option \<Rightarrow> pynum option" where
  "patan a = Option.bind a py_atan"

definition preal :: "pynum option \<Rightarrow> pynum option" where
  "preal a = map_option py_real a"

definition ple :: "pynum option \<Rightarrow> pynum option \<Rightarrow> bool option" where
  "ple a b = Option.bind a (\<lambda>x. Option.bind b (\<lambda>y. py_le x y))"

definition plt :: "pynum option \<Rightarrow> pynum option \<Rightarrow> bool option" where
  "plt a b = Option.bind a (\<lambda>x. Option.bind b (\<lambda>y. py_lt x y))"

definition pge :: "pynum option \<Rightarrow> pynum option \<Rightarrow> bool option" where
  "pge a b = Option.bind a (\<lambda>x. Option.bind b (\<lambda>y. py_ge x y))"

definition pgt :: "pynum option \<Rightarrow> pynum option \<Rightarrow> bool option" where
  "pgt a b = Option.bind a (\<lambda>x. Option.bind b (\<lambda>y. py_gt x y))"

text \<open>A statement that may raise, followed by the rest of the method.\<close>

definition pthen :: "pynum option \<Rightarrow> pynum option \<Rightarrow> pynum option" where
  "pthen a b = Option.bind a (\<lambda>_. b)"

text \<open>\<open>x if c else y\<close> and \<open>if c: return x else: return y\<close> on a condition that may raise.\<close>

definition pif :: "bool option \<Rightarrow> pynum option \<Rightarrow> pynum option \<Rightarrow> pynum option" where
  "pif c a b = (case c of None \<Rightarrow> None | Some t \<Rightarrow> (if t then a else b))"

section \<open>The drag model: class Rocket of modules/simulation/drag.py\<close>

text \<open>
  The instance is a record of the fields the constructor assigns. A method is a
  computation in the state monad over that record: it reads \<open>self\<close>, calls other
  methods in the order the source evaluates them, and returns a number or \<open>None\<close>
  (an exception). Sums, differences and products of floats and powers of a float with a
  non-negative integer literal cannot raise and are written in real arithmetic; every
  division, fractional power, logarithm, arcsine and ordering of a computed value goes
  through the operations above. The fields \<open>length\<close> and \<open>x\<close> of the source are
  \<open>length_total\<close> and \<open>fin_x\<close> here; the methods \<open>a\<close>, \<open>v\<close> and \<open>n\<close> are
  \<open>Rocket_a\<close>, \<open>Rocket_v\<close> and \<open>Rocket_n\<close>. Console output is not modelled, the
  evaluation of what is printed is.
\<close>

record Rocket =
  verbose :: bool
  nose_cone_length :: real
  body_tube_length :: real
  length_total :: real
  radius :: real
  boat_tail_radius :: real
  diameter :: real
  velocity :: real
  M :: real
  K :: real
  number_of_fins :: int
  fin_length :: real
  fin_height_long :: int
  fin_height_short :: real
  fin_thickness :: real
  fin_lambda :: real
  fin_x :: real
  K_f :: real
  S_B :: real

definition mach_per_fps :: real where
  "mach_per_fps = 0.0008957066031914082"

text \<open>
  \<open>Rocket.__init__(verbose, mach)\<close>. The geometry is literal; the only branch is on
  \<open>mach == 0\<close>. The local \<open>a\<close> of the source is \<open>ogive_a\<close>.
\<close>

definition ogive_a :: real where
  "ogive_a = (0.1666\<^sup>2 + 1.333\<^sup>2) / (2 * 0.1666)"

definition Rocket_init :: "bool \<Rightarrow> real \<Rightarrow> Rocket" where
  "Rocket_init vb mach =
     \<lparr> verbose = vb,
       nose_cone_length = 1.333,
       body_tube_length = 5.333,
       length_total = 1.333 + 5.333,
       radius = 0.1666,
       boat_tail_radius = 0.1666,
       diameter = 2 * 0.1666,
       velocity = (if mach = 0 then 143.4 else mach / mach_per_fps),
       M = (if mach = 0 then 143.4 * mach_per_fps else mach),
       K = 0.0004,
       number_of_fins = 4,
       fin_length = 0.333,
       fin_height_long = 1,
       fin_height_short = 0.333,
       fin_thickness = 0.0833,
       fin_lambda = 0.333 / 1,
       fin_x = 0.333 / 8,
       K_f = 1.04,
       S_B = 2 * pi * ((0.1666 - ogive_a) * arcsin (1.333 / ogive_a) + 1.333) \<rparr>"

text \<open>
  The constructor is written as a total function. Its one expression that can raise,
  the wetted area with its division and arcsine, is \<open>Rocket_init_S_B\<close> as the source
  evaluates it.
\<close>

definition Rocket_init_S_B :: "pynum option" where
  "Rocket_init_S_B =
     (let a = pdiv (fl (0.1666\<^sup>2 + 1.333\<^sup>2)) (fl (2 * 0.1666))
      in pmul (fl (2 * pi))
           (padd (pmul (psub (fl 0.1666) a) (pasin (pdiv (fl 1.333) a))) (fl 1.333)))"

text \<open>\<open>Rocket(verbose)\<close>: the parameter \<open>mach\<close> defaults to 0.\<close>

definition Rocket_default :: "bool \<Rightarrow> Rocket" where
  "Rocket_default vb = Rocket_init vb 0"

type_synonym 'a rocket_method = "(Rocket, 'a) state"

definition val :: "'a rocket_method \<Rightarrow> Rocket \<Rightarrow> 'a" where
  "val m self = fst (run_state m self)"

definition Rocket_a :: "real \<Rightarrow> pynum option rocket_method" where
  "Rocket_a h = State_Monad.return
     (if h \<le> 37000 then fl (- 0.004 * h + 1116.45)
      else if h \<le> 64000 then fl 968.08
      else fl (0.0007 * h + 924.99))"

definition Rocket_v :: "real \<Rightarrow> pynum option rocket_method" where
  "Rocket_v h = State_Monad.return
     (let (a, b) = (if h \<le> 15000 then (0.00002503, 0)
                    else if h \<le> 30000 then (0.00002760, - 0.03417)
                    else (0.00004664, - 0.6882))
      in pmul (fl 0.000157) (ppow (fl (exp 1)) (fl (a * h + b))))"

definition Rn_star :: "real \<Rightarrow> pynum option rocket_method" where
  "Rn_star h = do {
     ah \<leftarrow> Rocket_a h;
     self \<leftarrow> State_Monad.get;
     State_Monad.return
       (pmul
          (pdiv (pmul (pmul ah (fl (M self))) (fl (body_tube_length self + nose_cone_length self)))
                (fl (12 * velocity self)))
          (fl (1 + 0.0283 * M self - 0.043 * M self * 2 + 0.2107 * M self ^ 3
               - 0.03829 * M self ^ 4 + 0.002709 * M self ^ 5)))
   }"

definition C_f_star :: "real \<Rightarrow> pynum option rocket_method" where
  "C_f_star h = do {
     rn \<leftarrow> Rn_star h;
     State_Monad.return (pmul (fl 0.037036) (ppow rn (fl (- 0.155079))))
   }"

definition C_f :: "real \<Rightarrow> pynum option rocket_method" where
  "C_f h = do {
     cfs \<leftarrow> C_f_star h;
     self \<leftarrow> State_Monad.get;
     State_Monad.return
       (pmul cfs
          (fl (1 + 0.00798 * M self - 0.1813 * M self ^ 2 + 0.0632 * M self ^ 3
               - 0.00933 * M self ^ 4 + 0.000549 * M self ^ 5)))
   }"

definition C_f_term_star :: "pynum option rocket_method" where
  "C_f_term_star = do {
     self \<leftarrow> State_Monad.get;
     State_Monad.return
       (pdiv (fl 1)
          (ppow
             (padd (fl 1.89)
                (pmul (fl 1.62)
                   (plog10 (pdiv (fl (body_tube_length self + nose_cone_length self))
                                 (fl (K self))))))
             (fl 2.5)))
   }"

definition C_f_term :: "pynum option rocket_method" where
  "C_f_term = do {
     cts \<leftarrow> C_f_term_star;
     self \<leftarrow> State_Monad.get;
     State_Monad.return (pdiv cts (fl (1 + 0.2044 * (M self ^ 2))))
   }"

definition C_f_final :: "real \<Rightarrow> pynum option rocket_method" where
  "C_f_final h = do {
     c \<leftarrow> C_f h;
     t \<leftarrow> C_f_term;
     (case pge c t of
        None \<Rightarrow> State_Monad.return None
      | Some True \<Rightarrow> C_f h
      | Some False \<Rightarrow> C_f_term)
   }"

definition body_friction_drag :: "real \<Rightarrow> pynum option rocket_method" where
  "body_friction_drag h = do {
     cff \<leftarrow> C_f_final h;
     self \<leftarrow> State_Monad.get;
     State_Monad.return
       (pmul
          (pmul cff
             (padd
                (padd (fl 1)
                   (pdiv (fl 60)
                      (ppow (pdiv (fl (body_tube_length self + nose_cone_length self))
                                  (fl (diameter self)))
                            (fl 3))))
                (pmul (fl 0.0025) (pdiv (fl (body_tube_length self)) (fl (diameter self))))))
          (pdiv (fl (4 * S_B self)) (fl (pi * (diameter self ^ 2)))))
   }"

definition R_n :: "real \<Rightarrow> pynum option rocket_method" where
  "R_n h = do {
     ah \<leftarrow> Rocket_a h;
     self \<leftarrow> State_Monad.get;
     State_Monad.return
       (pdiv (pmul (pmul ah (fl (M self))) (fl (of_int (fin_height_long self))))
             (fl (12 * velocity self)))
   }"

definition C_f_lambda :: "real \<Rightarrow> pynum option rocket_method" where
  "C_f_lambda h = do {
     self \<leftarrow> State_Monad.get;
     let l = pdiv (fl (fin_height_short self)) (fl (of_int (fin_height_long self)));
     cff \<leftarrow> C_f_final h;
     rn1 \<leftarrow> R_n h;
     rn2 \<leftarrow> R_n h;
     rn3 \<leftarrow> R_n h;
     rn4 \<leftarrow> R_n h;
     rn5 \<leftarrow> R_n h;
     State_Monad.return
       (preal
          (pmul
             (pmul cff
                (pdiv (ppow (plog10 rn1) (fl 2.6)) (psub (ppow l (fl 2)) (fl 1))))
             (padd
                (psub
                   (pdiv (ppow l (fl 2)) (ppow (plog10 (pmul rn2 l)) (fl 2.6)))
                   (pdiv (fl 1) (ppow (plog10 rn3) (fl 2.6))))
                (pmul (fl 0.5646)
                   (psub
                      (pdiv (ppow l (fl 2)) (ppow (plog10 (pmul rn4 l)) (fl 3.6)))
                      (pdiv (fl 1) (ppow (plog10 rn5) (fl 3.6))))))))
   }"

definition fin_friction_drag :: "real \<Rightarrow> pynum option rocket_method" where
  "fin_friction_drag h = do {
     cfl \<leftarrow> C_f_lambda h;
     self \<leftarrow> State_Monad.get;
     State_Monad.return
       (pmul cfl
          (padd
             (padd (fl 1)
                (pmul (fl 60)
                   (ppow (pdiv (fl (fin_thickness self)) (fl (of_int (fin_height_long self))))
                         (fl 4))))
             (pmul
                (pmul
                   (pmul (fl 0.8)
                      (padd (fl 1)
                         (pmul (fl 5)
                            (ppow (pdiv (fl (fin_x self)) (fl (of_int (fin_height_long self))))
                                  (fl 2)))))
                   (pdiv (fl (fin_thickness self)) (fl (of_int (fin_height_long self)))))
                (pdiv
                   (pmul (fl (of_int (4 * number_of_fins self)))
                      (pdiv (fl (fin_length self))
                            (fl (of_int (fin_height_long self) + fin_height_short self))))
                   (fl (pi * diameter self ^ 2))))))
   }"

definition protuberance_friction_drag :: "pynum option rocket_method" where
  "protuberance_friction_drag = State_Monad.return (fl 0)"

text \<open>The local \<open>k\<close> of \<open>excrescencies_friction_drag\<close>, as a function of \<open>self.M\<close>.\<close>

definition excrescencies_k :: "real \<Rightarrow> real" where
  "excrescencies_k mach =
     (if mach < 0.78 then 0.00038
      else if mach \<le> 1.04 then
        - 0.4501 * mach ^ 4 + 1.5954 * mach ^ 3 - 2.1062 * mach ^ 2 + 1.2288 * mach - 0.26717
      else 0.0002 * mach ^ 2 - 0.0012 * mach + 0.0018)"

definition excrescencies_friction_drag :: "pynum option rocket_method" where
  "excrescencies_friction_drag = do {
     self \<leftarrow> State_Monad.get;
     let k = excrescencies_k (M self);
     State_Monad.return
       (pdiv (fl (k * 4 * S_B self)) (fl (pi * (2 * radius self) ^ 2)))
   }"

definition skin_friction_drag :: "real \<Rightarrow> pynum option rocket_method" where
  "skin_friction_drag h = do {
     self \<leftarrow> State_Monad.get;
     shown \<leftarrow> (if verbose self then do {
                  p1 \<leftarrow> body_friction_drag h;
                  p2 \<leftarrow> fin_friction_drag h;
                  p3 \<leftarrow> protuberance_friction_drag;
                  State_Monad.return (pthen p1 (pthen p2 p3))
                } else State_Monad.return (fl 0));
     bfd \<leftarrow> body_friction_drag h;
     self \<leftarrow> State_Monad.get;
     ffd \<leftarrow> fin_friction_drag h;
     pfd \<leftarrow> protuberance_friction_drag;
     efd \<leftarrow> excrescencies_friction_drag;
     State_Monad.return
       (pthen shown
          (padd
             (padd (padd bfd (pmul (fl (K_f self)) ffd)) (pmul (fl (K_f self)) pfd))
             efd))
   }"

definition Rocket_n :: "pynum option rocket_method" where
  "Rocket_n = do {
     self \<leftarrow> State_Monad.get;
     State_Monad.return
       (pmul (fl 3.6542)
          (ppow (pdiv (fl (body_tube_length self)) (fl (diameter self))) (fl (- 0.2733))))
   }"

definition K_b :: "pynum option rocket_method" where
  "K_b = do {
     self \<leftarrow> State_Monad.get;
     State_Monad.return
       (pmul (fl 0.0274)
          (patan (padd (pdiv (fl (body_tube_length self)) (fl (diameter self))) (fl 0.0116))))
   }"

definition base_drag :: "real \<Rightarrow> pynum option rocket_method" where
  "base_drag h = do {
     kb \<leftarrow> K_b;
     self \<leftarrow> State_Monad.get;
     n \<leftarrow> Rocket_n;
     sfd \<leftarrow> skin_friction_drag h;
     let b_d = pmul kb
                 (pdiv (ppow (pdiv (fl (boat_tail_radius self)) (fl (radius self))) n)
                       (ppow sfd (fl (1 / 2))));
     self \<leftarrow> State_Monad.get;
     State_Monad.return
       (if M self > 0.6 then
          (if M self < 1 then pmul b_d (fl (1 + 215.8 * (M self - 0.6) ^ 6))
           else if M self < 2 then
             pmul b_d (fl (2.0881 * ((M self - 1) ^ 3) - 3.7938 * ((M self - 1) ^ 2)
                           + 1.4618 * (M self - 1) + 1.883917))
           else
             pmul b_d (fl (0.297 * (M self - 2) ^ 3 - 0.7937 * (M self - 2) ^ 2
                           - 0.1115 * (M self - 2) + 1.64006)))
        else b_d)
   }"

definition M_d :: "pynum option rocket_method" where
  "M_d = do {
     self \<leftarrow> State_Monad.get;
     State_Monad.return
       (padd
          (padd
             (pmul (fl (- 0.0156))
                (ppow (pdiv (fl (nose_cone_length self)) (fl (2 * radius self))) (fl 2)))
             (pmul (fl 0.136) (pdiv (fl (nose_cone_length self)) (fl (2 * radius self)))))
          (fl 0.6817))
   }"

definition M_f :: "pynum option rocket_method" where
  "M_f = do {
     self \<leftarrow> State_Monad.get;
     let le = nose_cone_length self + body_tube_length self;
     let d = 2 * radius self;
     let ln_le = pdiv (fl (nose_cone_length self)) (fl le);
     let a = pif (plt ln_le (fl 0.2)) (fl 2.4)
               (psub
                  (padd (pmul (fl (- 321.94)) (ppow ln_le (fl 2))) (pmul (fl 264.07) ln_le))
                  (fl 36.348));
     let b = pif (plt ln_le (fl 0.2)) (fl (- 1.05))
               (padd
                  (psub (pmul (fl 19.634) (ppow ln_le (fl 2))) (pmul (fl 18.369) ln_le))
                  (fl 1.7434));
     State_Monad.return (padd (pmul a (ppow (pdiv (fl le) (fl d)) b)) (fl 1.0275))
   }"

definition C_d_max :: "pynum option rocket_method" where
  "C_d_max = do {
     self \<leftarrow> State_Monad.get;
     let le = nose_cone_length self + body_tube_length self;
     let ln_lb = pdiv (fl (nose_cone_length self)) (fl (body_tube_length self));
     let d = 2 * radius self;
     let c = padd (psub (pmul (fl 50.676) (ppow ln_lb (fl 2))) (pmul (fl 51.734) ln_lb))
                  (fl 15.642);
     let g = psub (padd (pmul (fl (- 2.2538)) (ppow ln_lb (fl 2))) (pmul (fl 1.3108) ln_lb))
                  (fl 1.7344);
     State_Monad.return
       (pif (pgt (pdiv (fl le) (fl d)) (fl 6))
          (pmul c (ppow (pdiv (fl le) (fl d)) g))
          (pmul c (ppow (fl 6) g)))
   }"

definition transonic_wave_drag :: "pynum option rocket_method" where
  "transonic_wave_drag = do {
     md \<leftarrow> M_d;
     self \<leftarrow> State_Monad.get;
     (case ple md (fl (M self)) of
        None \<Rightarrow> State_Monad.return None
      | Some False \<Rightarrow> State_Monad.return (fl 0)
      | Some True \<Rightarrow> do {
          mf \<leftarrow> M_f;
          (case ple (fl (M self)) mf of
             None \<Rightarrow> State_Monad.return None
           | Some True \<Rightarrow> C_d_max
           | Some False \<Rightarrow> State_Monad.return (fl 0))
        })
   }"

definition supersonic_wave_drag :: "pynum option rocket_method" where
  "supersonic_wave_drag = State_Monad.return (fl 0)"

definition drag_coefficient :: "real \<Rightarrow> pynum option rocket_method" where
  "drag_coefficient h = do {
     self \<leftarrow> State_Monad.get;
     shown \<leftarrow> (if verbose self \<or> True then do {
                  p1 \<leftarrow> skin_friction_drag h;
                  p2 \<leftarrow> base_drag h;
                  p3 \<leftarrow> transonic_wave_drag;
                  p4 \<leftarrow> supersonic_wave_drag;
                  State_Monad.return (pthen p1 (pthen p2 (pthen p3 p4)))
                } else State_Monad.return (fl 0));
     s1 \<leftarrow> skin_friction_drag h;
     s2 \<leftarrow> base_drag h;
     s3 \<leftarrow> transonic_wave_drag;
     s4 \<leftarrow> supersonic_wave_drag;
     State_Monad.return (pthen shown (padd (padd (padd s1 s2) s3) s4))
   }"


subsection \<open>The driver of drag.py\<close>

text \<open>
  The Mach sweep: \<open>machs = [mach*.01 for mach in range(0,100)]\<close>, then one fresh
  \<open>Rocket(verbose=False, mach=emach)\<close> per entry and \<open>drag_coefficient(h=height)\<close>
  appended to \<open>drags\<close>. An exception in one evaluation ends the driver (\<open>None\<close>).
\<close>

definition machs :: "real list" where
  "machs = map (\<lambda>mach. real mach * 0.01) [0..<100]"

fun sweep :: "real \<Rightarrow> real list \<Rightarrow> pynum list option" where
  "sweep height [] = Some []"
| "sweep height (emach # rest) =
     (case val (drag_coefficient height) (Rocket_init False emach) of
        None \<Rightarrow> None
      | Some d \<Rightarrow> map_option ((#) d) (sweep height rest))"

definition drags :: "pynum list option" where
  "drags = sweep 500 machs"

text \<open>
  The reference data: one row per line of \<open>prometheus.csv\<close> with the three columns the
  driver reads. A cell of a numeric column is a number or, where the file leaves it
  empty, NaN. An ordering comparison with NaN on either side is false. The loop keeps
  \<open>last_height\<close>, \<open>last_mach\<close> and the two output lists.
\<close>

datatype cell = Num real | NaN

fun cell_gt :: "cell \<Rightarrow> cell \<Rightarrow> bool" where
  "cell_gt (Num x) (Num y) = (x > y)"
| "cell_gt (Num x) NaN = False"
| "cell_gt NaN b = False"

record row =
  mach_number :: cell
  altitude_ft :: cell
  cd :: cell

record filter_state =
  last_height :: cell
  last_mach :: cell
  machs2 :: "cell list"
  drags2 :: "cell list"

definition filter_init :: filter_state where
  "filter_init =
     \<lparr> last_height = Num (- 5), last_mach = Num (- 100), machs2 = [], drags2 = [] \<rparr>"

definition filter_step :: "filter_state \<Rightarrow> row \<Rightarrow> filter_state" where
  "filter_step st p =
     (if cell_gt (last_mach st) (mach_number p) then st
      else \<lparr> last_height = altitude_ft p,
             last_mach = mach_number p,
             machs2 = machs2 st @ [mach_number p],
             drags2 = drags2 st @ [cd p] \<rparr>)"

definition filter_rows :: "row list \<Rightarrow> filter_state" where
  "filter_rows p = foldl filter_step filter_init p"

text \<open>The rows with the given numbers in the Mach column and fixed other cells.\<close>

definition mach_rows :: "cell \<Rightarrow> cell \<Rightarrow> cell list \<Rightarrow> row list" where
  "mach_rows alt c ms = map (\<lambda>m. \<lparr> mach_number = m, altitude_ft = alt, cd = c \<rparr>) ms"

section \<open>Configuration defaults: modules/Config.py\<close>

text \<open>
  The module-level constants carry the prefix \<open>Config_\<close>; the fields of the class
  \<open>Config\<close> keep their names.
\<close>

definition Config_DEBUG :: bool where
  "Config_DEBUG = False"

definition Config_PARACHUTE_CHARGE_TIME :: real where
  "Config_PARACHUTE_CHARGE_TIME = 0.5"

definition Config_APOGEE_DELAY :: int where
  "Config_APOGEE_DELAY = 0"

definition Config_MAIN_ALTITUDE :: int where
  "Config_MAIN_ALTITUDE = 1000"

definition Config_MAIN_DELAY :: int where
  "Config_MAIN_DELAY = 0"

record Config =
  DEBUG :: bool
  Test :: bool
  PARACHUTE_CHARGE_TIME :: real
  APOGEE_DELAY :: int
  MAIN_ALTITUDE :: int
  MAIN_DELAY :: int

definition Config_init :: Config where
  "Config_init =
     \<lparr> DEBUG = True,
       Test = False,
       PARACHUTE_CHARGE_TIME = 0.5,
       APOGEE_DELAY = 0,
       MAIN_ALTITUDE = 1000,
       MAIN_DELAY = 0 \<rparr>"

section \<open>The main loop: src/Avionics.py\<close>

text \<open>
  The configuration class the avionics process uses, the state machine and the data
  recorder are not among the sources. The loop reads six fields of the configuration;
  they are the record \<open>conf\<close>. Everything else the process owns is the component
  \<open>world\<close> of unknown type. The calls into the missing code are parameters of the
  model: \<open>act\<close> for \<open>rocket_state.act()\<close>, \<open>activate_hook\<close>, \<open>show_debug\<close> for
  the two debug prints and \<open>input_prompt\<close> for the operator prompt. Each takes the whole state and
  returns it, so each may change the configuration.
\<close>

record conf =
  shutdown :: bool
  FIDI :: bool
  conf_DEBUG :: bool
  SIM :: bool
  conf_state :: string
  last_state :: string

record 'w avionics =
  config :: conf
  world :: 'w

record 'w env =
  act :: "'w avionics \<Rightarrow> 'w avionics"
  activate_hook :: "string \<Rightarrow> 'w avionics \<Rightarrow> 'w avionics"
  show_debug :: "'w avionics \<Rightarrow> 'w avionics"
  input_prompt :: "string \<Rightarrow> 'w avionics \<Rightarrow> 'w avionics"

definition guard :: "'w avionics \<Rightarrow> bool" where
  "guard s = ((\<not> shutdown (config s)) \<or> FIDI (config s))"

definition arm_if_idle :: "'w env \<Rightarrow> 'w avionics \<Rightarrow> 'w avionics" where
  "arm_if_idle e s =
     (if conf_state (config s) = ''IDLE''
      then activate_hook e ''arm_start'' (s\<lparr>config := (config s)\<lparr>conf_state := ''ARM''\<rparr>\<rparr>)
      else s)"

definition confirm_change :: "'w env \<Rightarrow> 'w avionics \<Rightarrow> 'w avionics" where
  "confirm_change e s =
     (if last_state (config s) \<noteq> conf_state (config s)
      then input_prompt e (''STATE CHANGE: '' @ conf_state (config s)) s
      else s)"

definition pause_buffer :: "'w env \<Rightarrow> 'w avionics \<Rightarrow> 'w avionics" where
  "pause_buffer e s =
     (if conf_state (config s) \<in> set [''APOGEE'']
      then input_prompt e ''PAUSE BUFFER'' s
      else s)"

definition iteration :: "'w env \<Rightarrow> 'w avionics \<Rightarrow> 'w avionics" where
  "iteration e s =
     (let s1 = (if conf_DEBUG (config s) then show_debug e s else s);
          s2 = (if SIM (config s1)
                then pause_buffer e (confirm_change e (arm_if_idle e s1))
                else s1)
      in act e s2)"

partial_function (option) main_process :: "'w env \<Rightarrow> 'w avionics \<Rightarrow> 'w avionics option" where
  "main_process e s = (if guard s then main_process e (iteration e s) else Some s)"

text \<open>The state after \<open>n\<close> passes through the loop body.\<close>

fun iterations :: "'w env \<Rightarrow> nat \<Rightarrow> 'w avionics \<Rightarrow> 'w avionics" where
  "iterations e 0 s = s"
| "iterations e (Suc n) s = iterations e n (iteration e s)"


subsection \<open>An instance of the parameters\<close>

text \<open>
  A state machine whose \<open>act\<close> requests shutdown and does nothing else, with hooks,
  prints and prompts that leave the state alone, and a start state in \<open>IDLE\<close>, outside
  simulation and debug mode, with the two flags given.
\<close>

definition shutdown_env :: "unit env" where
  "shutdown_env =
     \<lparr> act = (\<lambda>s. s\<lparr>config := (config s)\<lparr>shutdown := True\<rparr>\<rparr>),
       activate_hook = (\<lambda>_ s. s),
       show_debug = (\<lambda>s. s),
       input_prompt = (\<lambda>_ s. s) \<rparr>"

definition idle_state :: "bool \<Rightarrow> bool \<Rightarrow> unit avionics" where
  "idle_state sd fd =
     \<lparr> config = \<lparr> shutdown = sd, FIDI = fd, conf_DEBUG = False, SIM = False,
                  conf_state = ''IDLE'', last_state = ''IDLE'' \<rparr>,
       world = () \<rparr>"

section \<open>Frame conditions of methods\<close>

text \<open>A method satisfies \<open>frame\<close> when it returns the instance it was called on.\<close>

definition frame :: "'a rocket_method \<Rightarrow> bool" where
  "frame m = (\<forall>self. snd (run_state m self) = self)"

section \<open>Predicates on results and instances\<close>

text \<open>
  A result is a positive, a non-negative or some float, or a float between two bounds: it
  is not an exception and not a complex number. \<open>default_geometry\<close> holds of an instance whose geometry fields have
  the values the constructor assigns and whose velocity is \<open>M / 0.0008957066031914082\<close>.
\<close>

definition posf :: "pynum option \<Rightarrow> bool" where
  "posf a = (case a of Some (Fl v) \<Rightarrow> 0 < v | _ \<Rightarrow> False)"

definition nonnegf :: "pynum option \<Rightarrow> bool" where
  "nonnegf a = (case a of Some (Fl v) \<Rightarrow> 0 \<le> v | _ \<Rightarrow> False)"

definition default_geometry :: "Rocket \<Rightarrow> bool" where
  "default_geometry self =
     (nose_cone_length self = 1.333 \<and> body_tube_length self = 5.333 \<and>
      radius self = 0.1666 \<and> boat_tail_radius self = 0.1666 \<and> diameter self = 2 * 0.1666 \<and>
      K self = 0.0004 \<and> number_of_fins self = 4 \<and> fin_length self = 0.333 \<and>
      fin_height_long self = 1 \<and> fin_height_short self = 0.333 \<and>
      fin_thickness self = 0.0833 \<and> fin_x self = 0.333 / 8 \<and> K_f self = 1.04 \<and>
      S_B self = 2 * pi * ((0.1666 - ogive_a) * arcsin (1.333 / ogive_a) + 1.333) \<and>
      velocity self = M self / mach_per_fps)"

definition float_between :: "real \<Rightarrow> real \<Rightarrow> pynum option \<Rightarrow> bool" where
  "float_between lo hi a = (case a of Some (Fl v) \<Rightarrow> lo \<le> v \<and> v \<le> hi | _ \<Rightarrow> False)"

definition isfl :: "pynum option \<Rightarrow> bool" where
  "isfl a = (case a of Some (Fl v) \<Rightarrow> True | _ \<Rightarrow> False)"

section \<open>Properties of the drag model\<close>

subsection \<open>The constructor\<close>

text \<open>
  Claim C10. The constructor treats \<open>mach = 0\<close> as no override: for a non-zero argument
  the instance has \<open>M = mach\<close> and \<open>velocity = mach / 0.0008957066031914082\<close>; for a
  zero argument, explicit or defaulted, it has \<open>velocity = 143.4\<close> and
  \<open>M = 143.4 * 0.0008957066031914082\<close>. Hence no constructed instance has \<open>M = 0\<close>,
  and \<open>Rocket(verbose, 0)\<close> is the instance \<open>Rocket(verbose)\<close>.
\<close>

theorem Rocket_init_mach:
  "(m \<noteq> 0 \<longrightarrow>
      M (Rocket_init vb m) = m \<and>
      velocity (Rocket_init vb m) = m / 0.0008957066031914082) \<and>
   (m = 0 \<longrightarrow>
      velocity (Rocket_init vb m) = 143.4 \<and>
      M (Rocket_init vb m) = 143.4 * 0.0008957066031914082) \<and>
   M (Rocket_init vb m) \<noteq> 0 \<and>
   Rocket_init vb 0 = Rocket_default vb"
  by (simp add: Rocket_init_def Rocket_default_def mach_per_fps_def)

theorem Rocket_init_mach_witness:
  "M (Rocket_init False 0.5) = 0.5 \<and>
   velocity (Rocket_init False 0.5) = 0.5 / 0.0008957066031914082 \<and>
   velocity (Rocket_init False 0) = 143.4 \<and>
   M (Rocket_init False 0) = 143.4 * 0.0008957066031914082 \<and>
   M (Rocket_init False 0) \<noteq> 0"
proof -
  have a: "(0.5::real) \<noteq> 0" by simp
  from Rocket_init_mach [of "0.5" False] a
  have 1: "M (Rocket_init False 0.5) = 0.5"
    "velocity (Rocket_init False 0.5) = 0.5 / 0.0008957066031914082"
    by blast+
  from Rocket_init_mach [of 0 False]
  have 2: "velocity (Rocket_init False 0) = 143.4"
    "M (Rocket_init False 0) = 143.4 * 0.0008957066031914082"
    "M (Rocket_init False 0) \<noteq> 0"
    by blast+
  show ?thesis using 1 2 by blast
qed

subsection \<open>Speed of sound\<close>

text \<open>
  Claim C3, as the code has it. \<open>a(h)\<close> is the stated piecewise-linear function, and
  it jumps at both segment boundaries: it is 968.45 at \<open>h = 37000\<close> and 968.08 on the
  whole middle segment (a drop of 0.37), and it is above 969.79 everywhere beyond
  \<open>h = 64000\<close>, where it is 968.08 (a rise of more than 1.71).
\<close>

theorem Rocket_a_piecewise:
  "val (Rocket_a h) self =
     fl (if h \<le> 37000 then - 0.004 * h + 1116.45
         else if h \<le> 64000 then 968.08
         else 0.0007 * h + 924.99) \<and>
   val (Rocket_a 37000) self = fl 968.45 \<and>
   (37000 < h \<and> h \<le> 64000 \<longrightarrow> val (Rocket_a h) self = fl 968.08) \<and>
   (64000 < h \<longrightarrow> (\<exists>y. val (Rocket_a h) self = fl y \<and> 969.79 < y))"
  by (simp add: val_def Rocket_a_def fl_def)

theorem Rocket_a_piecewise_witness:
  "val (Rocket_a 37001) (Rocket_default False) = fl 968.08 \<and>
   (\<exists>y. val (Rocket_a 64001) (Rocket_default False) = fl y \<and> 969.79 < y)"
proof -
  have "(37000::real) < 37001 \<and> (37001::real) \<le> 64000" by simp
  with Rocket_a_piecewise [of 37001 "Rocket_default False"]
  have 1: "val (Rocket_a 37001) (Rocket_default False) = fl 968.08" by blast
  have "(64000::real) < 64001" by simp
  with Rocket_a_piecewise [of 64001 "Rocket_default False"]
  have 2: "\<exists>y. val (Rocket_a 64001) (Rocket_default False) = fl y \<and> 969.79 < y" by blast
  show ?thesis using 1 2 by blast
qed

text \<open>
  The claim as stated, continuity at the boundaries, fails: one millionth of a foot
  above each boundary the value differs from the value at the boundary by 0.37 and by
  more than 1.71.
\<close>

theorem Rocket_a_jump_counterexample:
  "val (Rocket_a 37000) (Rocket_default False) = fl 968.45 \<and>
   val (Rocket_a (37000 + 1 / 10 ^ 6)) (Rocket_default False) = fl 968.08 \<and>
   val (Rocket_a 64000) (Rocket_default False) = fl 968.08 \<and>
   val (Rocket_a (64000 + 1 / 10 ^ 6)) (Rocket_default False) = fl (969.79 + 7 / 10 ^ 10)"
  by (simp add: val_def Rocket_a_def fl_def)

subsection \<open>The compressible Reynolds number\<close>

text \<open>
  Claim C5. With a non-zero velocity, \<open>Rn_star(h)\<close> is
  \<open>a(h) * M * (body_tube_length + nose_cone_length) / (12 * velocity)\<close> times the factor
  \<open>1 + 0.0283 M - 0.043 (M * 2) + 0.2107 M^3 - 0.03829 M^4 + 0.002709 M^5\<close>, whose
  second term is \<open>- 0.086 M\<close>; unless \<open>M\<close> is 0 or 2 (or the length is 0) this is not
  the value the factor with \<open>- 0.043 M^2\<close> would give.
\<close>

theorem Rn_star_formula:
  assumes "velocity self \<noteq> 0"
  shows "\<exists>ah. val (Rocket_a h) self = fl ah \<and>
     val (Rn_star h) self =
       fl (ah * M self * (body_tube_length self + nose_cone_length self) / (12 * velocity self)
           * (1 + 0.0283 * M self - 0.043 * (M self * 2) + 0.2107 * M self ^ 3
              - 0.03829 * M self ^ 4 + 0.002709 * M self ^ 5)) \<and>
     val (Rn_star h) self =
       fl (ah * M self * (body_tube_length self + nose_cone_length self) / (12 * velocity self)
           * (1 + 0.0283 * M self - 0.086 * M self + 0.2107 * M self ^ 3
              - 0.03829 * M self ^ 4 + 0.002709 * M self ^ 5)) \<and>
     (M self \<noteq> 0 \<and> M self \<noteq> 2 \<and> body_tube_length self + nose_cone_length self \<noteq> 0 \<longrightarrow>
      val (Rn_star h) self \<noteq>
       fl (ah * M self * (body_tube_length self + nose_cone_length self) / (12 * velocity self)
           * (1 + 0.0283 * M self - 0.043 * M self ^ 2 + 0.2107 * M self ^ 3
              - 0.03829 * M self ^ 4 + 0.002709 * M self ^ 5)))"
proof -
  define ah where "ah = (if h \<le> 37000 then - 0.004 * h + 1116.45
      else if h \<le> 64000 then 968.08 else 0.0007 * h + 924.99)"
  have a: "val (Rocket_a h) self = fl ah"
    by (simp add: val_def Rocket_a_def ah_def)
  have nz: "ah \<noteq> 0"
    by (auto simp: ah_def)
  define c where
    "c = ah * M self * (body_tube_length self + nose_cone_length self) / (12 * velocity self)"
  have rn: "val (Rn_star h) self =
      fl (c * (1 + 0.0283 * M self - 0.043 * (M self * 2) + 0.2107 * M self ^ 3
               - 0.03829 * M self ^ 4 + 0.002709 * M self ^ 5))"
    using assms a by (simp add: val_def Rn_star_def Rocket_a_def fl_def pmul_def pdiv_def c_def)
  have sq: "c * (1 + 0.0283 * M self - 0.043 * (M self * 2) + 0.2107 * M self ^ 3
                 - 0.03829 * M self ^ 4 + 0.002709 * M self ^ 5)
          \<noteq> c * (1 + 0.0283 * M self - 0.043 * M self ^ 2 + 0.2107 * M self ^ 3
                 - 0.03829 * M self ^ 4 + 0.002709 * M self ^ 5)"
    if "M self \<noteq> 0" "M self \<noteq> 2" "body_tube_length self + nose_cone_length self \<noteq> 0"
  proof -
    have cz: "c \<noteq> 0"
      using that assms nz by (simp add: c_def)
    have "M self * 2 \<noteq> M self ^ 2"
      using that by (simp add: power2_eq_square)
    then show ?thesis
      using cz by simp
  qed
  show ?thesis
    apply (rule exI[of _ ah])
    unfolding c_def[symmetric]
    using a rn sq by (simp add: fl_def)
qed

theorem Rn_star_formula_witness:
  "velocity (Rocket_init False 0.5) \<noteq> 0 \<and>
   val (Rn_star 500) (Rocket_init False 0.5) =
     fl (1114.45 * 0.5 * (5.333 + 1.333) / (12 * (0.5 / 0.0008957066031914082))
         * (1 + 0.0283 * 0.5 - 0.086 * 0.5 + 0.2107 * 0.5 ^ 3 - 0.03829 * 0.5 ^ 4
            + 0.002709 * 0.5 ^ 5))"
proof -
  let ?r = "Rocket_init False 0.5"
  have v: "velocity ?r \<noteq> 0"
    by (simp add: Rocket_init_def mach_per_fps_def)
  from Rn_star_formula [OF v, of 500] obtain ah where
    a: "val (Rocket_a 500) ?r = fl ah" and
    r: "val (Rn_star 500) ?r =
       fl (ah * M ?r * (body_tube_length ?r + nose_cone_length ?r) / (12 * velocity ?r)
           * (1 + 0.0283 * M ?r - 0.086 * M ?r + 0.2107 * M ?r ^ 3 - 0.03829 * M ?r ^ 4
              + 0.002709 * M ?r ^ 5))"
    by blast
  have ah: "ah = 1114.45"
    using a by (simp add: val_def Rocket_a_def fl_def)
  have f: "M ?r = 0.5" "body_tube_length ?r = 5.333" "nose_cone_length ?r = 1.333"
    "velocity ?r = 0.5 / 0.0008957066031914082"
    by (simp_all add: Rocket_init_def mach_per_fps_def)
  show ?thesis
    using v r unfolding ah f by blast
qed

subsection \<open>The base-drag ratio under the default geometry\<close>

lemma Arg_one: "Arg 1 = 0"
  by (rule cis_Arg_unique) simp_all

text \<open>
  Claim C8. The constructor sets \<open>boat_tail_radius\<close> and \<open>radius\<close> to the same
  value, so \<open>(boat_tail_radius / radius) ** n\<close> is the float 1 for every float
  exponent \<open>n\<close> (and the complex 1 for a complex exponent), whatever the altitude.
\<close>

theorem boat_tail_ratio_one:
  "ppow (pdiv (fl (boat_tail_radius (Rocket_init vb m))) (fl (radius (Rocket_init vb m)))) (fl n)
     = fl 1 \<and>
   ppow (pdiv (fl (boat_tail_radius (Rocket_init vb m))) (fl (radius (Rocket_init vb m))))
     (Some (Cx w)) = Some (Cx 1)"
  by (simp add: Rocket_init_def ppow_def pdiv_def fl_def float_pow_def complex_pow_def Arg_one)

subsection \<open>The reference-data filter\<close>

lemma filter_rows_snoc: "filter_rows (ps @ [p]) = filter_step (filter_rows ps) p"
  by (simp add: filter_rows_def)

lemma sorted_le_last: "sorted xs \<Longrightarrow> x \<in> set xs \<Longrightarrow> x \<le> last (xs :: real list)"
  by (induction xs) auto

lemma filter_rows_last_mach:
  "last_mach (filter_rows ps) =
     (if machs2 (filter_rows ps) = [] then Num (- 100) else last (machs2 (filter_rows ps)))"
proof (induction ps rule: rev_induct)
  case Nil
  then show ?case
    by (simp add: filter_rows_def filter_init_def)
next
  case (snoc p ps)
  then show ?case
    by (simp add: filter_rows_snoc filter_step_def)
qed

lemma filter_rows_numbers:
  assumes "\<forall>p \<in> set ps. mach_number p \<noteq> NaN"
  shows "\<exists>xs. machs2 (filter_rows ps) = map Num xs \<and> sorted xs \<and> (\<forall>x \<in> set xs. - 100 \<le> x)"
  using assms
proof (induction ps rule: rev_induct)
  case Nil
  then show ?case
    by (simp add: filter_rows_def filter_init_def)
next
  case (snoc p ps)
  let ?st = "filter_rows ps"
  from snoc obtain xs where xs: "machs2 ?st = map Num xs" "sorted xs" "\<forall>x \<in> set xs. - 100 \<le> x"
    by auto
  from snoc.prems obtain y where y: "mach_number p = Num y"
    by (cases "mach_number p") auto
  have l: "last_mach ?st = Num (if xs = [] then - 100 else last xs)"
    using filter_rows_last_mach[of ps] xs(1) by (simp add: last_map)
  have lb: "- 100 \<le> (if xs = [] then - 100 else last xs)"
    using xs(3) last_in_set[of xs] by auto
  have ub: "\<forall>x \<in> set xs. x \<le> (if xs = [] then - 100 else last xs)"
    using xs(2) sorted_le_last[of xs] by auto
  show ?case
  proof (cases "cell_gt (last_mach ?st) (mach_number p)")
    case True
    then have "filter_rows (ps @ [p]) = ?st"
      by (simp add: filter_rows_snoc filter_step_def)
    then show ?thesis
      using xs by auto
  next
    case False
    then have le: "(if xs = [] then - 100 else last xs) \<le> y"
      by (simp add: l y)
    have "machs2 (filter_rows (ps @ [p])) = map Num (xs @ [y])"
      using False by (simp add: filter_rows_snoc filter_step_def xs(1) y)
    moreover have "sorted (xs @ [y])"
      using xs(2) ub le by (auto simp: sorted_append)
    moreover have "\<forall>x \<in> set (xs @ [y]). - 100 \<le> x"
      using xs(3) lb le by auto
    ultimately show ?thesis
      by blast
  qed
qed

text \<open>
  Claim C4, as the code has it. A row is dropped exactly when \<open>last_mach\<close> is greater
  than its Mach number, and \<open>last_mach\<close> is the Mach number of the last retained row
  (\<open>- 100\<close> before the first); the drag coefficient of a retained row is retained with
  it. For a Mach column without NaN this retains a row exactly when its Mach number is
  not below that of the last retained row, so the retained Mach numbers are
  non-decreasing numbers, and the column 0.1, 0.3, 0.2, 0.5 yields 0.1, 0.3, 0.5. A NaN
  in the Mach column is retained, and so is the row after it whatever its Mach number:
  the column 0.3, NaN, 0.1, 0.2 is retained whole.
\<close>

theorem filter_rows_nondecreasing:
  "machs2 (filter_rows (ps @ [p])) =
     (if cell_gt (last_mach (filter_rows ps)) (mach_number p)
      then machs2 (filter_rows ps) else machs2 (filter_rows ps) @ [mach_number p]) \<and>
   drags2 (filter_rows (ps @ [p])) =
     (if cell_gt (last_mach (filter_rows ps)) (mach_number p)
      then drags2 (filter_rows ps) else drags2 (filter_rows ps) @ [cd p]) \<and>
   last_mach (filter_rows ps) =
     (if machs2 (filter_rows ps) = [] then Num (- 100) else last (machs2 (filter_rows ps))) \<and>
   ((\<forall>q \<in> set (ps @ [p]). mach_number q \<noteq> NaN) \<longrightarrow>
      (\<exists>xs l y. machs2 (filter_rows ps) = map Num xs \<and> sorted xs \<and>
         last_mach (filter_rows ps) = Num l \<and> mach_number p = Num y \<and>
         machs2 (filter_rows (ps @ [p])) = (if l \<le> y then map Num (xs @ [y]) else map Num xs) \<and>
         sorted (if l \<le> y then xs @ [y] else xs))) \<and>
   machs2 (filter_rows (mach_rows alt c [Num 0.1, Num 0.3, Num 0.2, Num 0.5])) =
     [Num 0.1, Num 0.3, Num 0.5] \<and>
   machs2 (filter_rows (mach_rows alt c [Num 0.3, NaN, Num 0.1, Num 0.2])) =
     [Num 0.3, NaN, Num 0.1, Num 0.2]"
proof -
  have ex: "machs2 (filter_rows (mach_rows alt c [Num 0.1, Num 0.3, Num 0.2, Num 0.5])) =
     [Num 0.1, Num 0.3, Num 0.5]"
    "machs2 (filter_rows (mach_rows alt c [Num 0.3, NaN, Num 0.1, Num 0.2])) =
     [Num 0.3, NaN, Num 0.1, Num 0.2]"
    by (simp_all add: mach_rows_def filter_rows_def filter_step_def filter_init_def)
  have step: "machs2 (filter_rows (ps @ [p])) =
     (if cell_gt (last_mach (filter_rows ps)) (mach_number p)
      then machs2 (filter_rows ps) else machs2 (filter_rows ps) @ [mach_number p])"
    "drags2 (filter_rows (ps @ [p])) =
     (if cell_gt (last_mach (filter_rows ps)) (mach_number p)
      then drags2 (filter_rows ps) else drags2 (filter_rows ps) @ [cd p])"
    by (simp_all add: filter_rows_snoc filter_step_def)
  have num: "\<exists>xs l y. machs2 (filter_rows ps) = map Num xs \<and> sorted xs \<and>
         last_mach (filter_rows ps) = Num l \<and> mach_number p = Num y \<and>
         machs2 (filter_rows (ps @ [p])) = (if l \<le> y then map Num (xs @ [y]) else map Num xs) \<and>
         sorted (if l \<le> y then xs @ [y] else xs)"
    if n: "\<forall>q \<in> set (ps @ [p]). mach_number q \<noteq> NaN"
  proof -
    from n have "\<forall>q \<in> set ps. mach_number q \<noteq> NaN"
      by simp
    from filter_rows_numbers[OF this] obtain xs where
      xs: "machs2 (filter_rows ps) = map Num xs" "sorted xs"
      by blast
    from n obtain y where y: "mach_number p = Num y"
      by (cases "mach_number p") auto
    have l: "last_mach (filter_rows ps) = Num (if xs = [] then - 100 else last xs)"
      using filter_rows_last_mach[of ps] xs(1) by (simp add: last_map)
    have m: "machs2 (filter_rows (ps @ [p])) =
        (if (if xs = [] then - 100 else last xs) \<le> y then map Num (xs @ [y]) else map Num xs)"
      unfolding step(1) l y xs(1) by (simp add: not_less)
    from filter_rows_numbers[OF n] obtain zs where
      zs: "machs2 (filter_rows (ps @ [p])) = map Num zs" "sorted zs"
      by blast
    have inj: "inj Num"
      by (simp add: inj_def)
    have "map Num zs =
        map Num (if (if xs = [] then - 100 else last xs) \<le> y then xs @ [y] else xs)"
      using m zs(1) by (simp split: if_splits)
    then have "zs = (if (if xs = [] then - 100 else last xs) \<le> y then xs @ [y] else xs)"
      by (simp only: inj_map_eq_map[OF inj])
    then have "sorted (if (if xs = [] then - 100 else last xs) \<le> y then xs @ [y] else xs)"
      using zs(2) by simp
    with xs y l m show ?thesis
      by blast
  qed
  show ?thesis
    using ex step filter_rows_last_mach[of ps] num by blast
qed

theorem filter_rows_nondecreasing_witness:
  "\<exists>xs. machs2 (filter_rows (mach_rows (Num 10) (Num 0.5) [Num 0.1, Num 0.3])) = map Num xs \<and>
        sorted xs \<and>
        machs2 (filter_rows (mach_rows (Num 10) (Num 0.5) [Num 0.1, Num 0.3] @
                             mach_rows (Num 10) (Num 0.5) [Num 0.2])) = map Num xs"
proof -
  let ?ps = "mach_rows (Num 10) (Num 0.5) [Num 0.1, Num 0.3]"
  let ?p = "\<lparr> mach_number = Num 0.2, altitude_ft = Num 10, cd = Num 0.5 \<rparr>"
  have n: "\<forall>q \<in> set (?ps @ [?p]). mach_number q \<noteq> NaN"
    by (simp add: mach_rows_def)
  with filter_rows_nondecreasing[of ?ps ?p] obtain xs l y where
    r: "machs2 (filter_rows ?ps) = map Num xs" "sorted xs"
       "last_mach (filter_rows ?ps) = Num l" "mach_number ?p = Num y"
       "machs2 (filter_rows (?ps @ [?p])) = (if l \<le> y then map Num (xs @ [y]) else map Num xs)"
    by blast
  have "l = 0.3" "y = 0.2"
    using r(3,4) by (simp_all add: mach_rows_def filter_rows_def filter_step_def filter_init_def)
  then have "machs2 (filter_rows (?ps @ [?p])) = map Num xs"
    using r(5) by simp
  moreover have "mach_rows (Num 10) (Num 0.5) [Num 0.2] = [?p]"
    by (simp add: mach_rows_def)
  ultimately show ?thesis
    using r(1,2) by auto
qed

text \<open>
  The claim as stated, a strictly increasing sequence without equal Mach numbers, fails:
  a row whose Mach number equals the last retained one is retained.
\<close>

theorem filter_rows_equal_counterexample:
  "machs2 (filter_rows [\<lparr> mach_number = Num 0.1, altitude_ft = Num 10, cd = Num 0.5 \<rparr>,
                        \<lparr> mach_number = Num 0.1, altitude_ft = Num 20, cd = Num 0.6 \<rparr>])
     = [Num 0.1, Num 0.1]"
  by (simp add: filter_rows_def filter_step_def filter_init_def)

section \<open>Properties of the configuration defaults\<close>

text \<open>
  Claim C6. The constructor of \<open>Config\<close> sets \<open>DEBUG\<close> to true while the module-level
  constant \<open>DEBUG\<close> is false; the other four defaults agree with the module-level
  constants.
\<close>

theorem Config_init_defaults:
  "DEBUG Config_init = True \<and> Config_DEBUG = False \<and>
   PARACHUTE_CHARGE_TIME Config_init = Config_PARACHUTE_CHARGE_TIME \<and>
   APOGEE_DELAY Config_init = Config_APOGEE_DELAY \<and>
   MAIN_ALTITUDE Config_init = Config_MAIN_ALTITUDE \<and>
   MAIN_DELAY Config_init = Config_MAIN_DELAY"
  by (simp add: Config_init_def Config_DEBUG_def Config_PARACHUTE_CHARGE_TIME_def
      Config_APOGEE_DELAY_def Config_MAIN_ALTITUDE_def Config_MAIN_DELAY_def)

section \<open>Properties of the main loop\<close>

lemma main_process_returns:
  "\<not> guard (iterations e n s) \<Longrightarrow> (\<forall>k<n. guard (iterations e k s)) \<Longrightarrow>
   main_process e s = Some (iterations e n s)"
proof (induction n arbitrary: s)
  case 0
  then show ?case
    by (simp add: main_process.simps)
next
  case (Suc n)
  have g: "guard s"
    using Suc.prems(2)[rule_format, of 0] by simp
  have "main_process e (iteration e s) = Some (iterations e n (iteration e s))"
  proof (rule Suc.IH)
    show "\<not> guard (iterations e n (iteration e s))"
      using Suc.prems(1) by simp
    show "\<forall>k<n. guard (iterations e k (iteration e s))"
      using Suc.prems(2) by (metis Suc_less_eq iterations.simps(2))
  qed
  then show ?case
    using g by (subst main_process.simps) simp
qed

lemma main_process_result:
  assumes "main_process e s = Some s'"
  shows "\<exists>n. s' = iterations e n s \<and> \<not> guard (iterations e n s) \<and>
             (\<forall>k<n. guard (iterations e k s))"
proof (rule main_process.raw_induct
    [where P = "\<lambda>e s s'. \<exists>n. s' = iterations e n s \<and> \<not> guard (iterations e n s) \<and>
                              (\<forall>k<n. guard (iterations e k s))",
     OF _ assms])
  fix mp :: "'a env \<Rightarrow> 'a avionics \<Rightarrow> 'a avionics option" and e s s'
  assume IH: "\<And>e s s'. mp e s = Some s' \<Longrightarrow>
      \<exists>n. s' = iterations e n s \<and> \<not> guard (iterations e n s) \<and>
          (\<forall>k<n. guard (iterations e k s))"
    and eq: "(if guard s then mp e (iteration e s) else Some s) = Some s'"
  show "\<exists>n. s' = iterations e n s \<and> \<not> guard (iterations e n s) \<and>
            (\<forall>k<n. guard (iterations e k s))"
  proof (cases "guard s")
    case True
    with eq have "mp e (iteration e s) = Some s'"
      by simp
    from IH[OF this] obtain n where n: "s' = iterations e n (iteration e s)"
      "\<not> guard (iterations e n (iteration e s))"
      "\<forall>k<n. guard (iterations e k (iteration e s))"
      by auto
    have "\<forall>k<Suc n. guard (iterations e k s)"
    proof (intro allI impI)
      fix k assume "k < Suc n"
      then show "guard (iterations e k s)"
        using n(3) True by (cases k) auto
    qed
    with n(1,2) show ?thesis
      by (intro exI[of _ "Suc n"]) simp
  next
    case False
    with eq have "s' = s"
      by simp
    with False show ?thesis
      by (intro exI[of _ 0]) simp
  qed
qed


text \<open>
  Claim C1. Each time the guard is evaluated, the body runs once more exactly when
  \<open>shutdown\<close> is false or \<open>FIDI\<close> is true. So \<open>main_process\<close> returns exactly when
  some number of iterations leads to a state with \<open>shutdown\<close> set and \<open>FIDI\<close> clear, and
  it returns the first such state; while \<open>FIDI\<close> stays true it never returns, whatever
  \<open>shutdown\<close> is.
\<close>

theorem main_process_guard:
  "main_process e s =
     (if \<not> shutdown (config s) \<or> FIDI (config s) then main_process e (iteration e s) else Some s) \<and>
   (main_process e s = Some s' \<longleftrightarrow>
      (\<exists>n. s' = iterations e n s \<and>
           shutdown (config s') \<and> \<not> FIDI (config s') \<and>
           (\<forall>k<n. \<not> shutdown (config (iterations e k s)) \<or> FIDI (config (iterations e k s))))) \<and>
   ((\<forall>k. FIDI (config (iterations e k s))) \<longrightarrow> main_process e s = None)"
proof (intro conjI)
  show "main_process e s =
     (if \<not> shutdown (config s) \<or> FIDI (config s) then main_process e (iteration e s) else Some s)"
    by (subst main_process.simps) (simp add: guard_def)
  show "main_process e s = Some s' \<longleftrightarrow>
      (\<exists>n. s' = iterations e n s \<and>
           shutdown (config s') \<and> \<not> FIDI (config s') \<and>
           (\<forall>k<n. \<not> shutdown (config (iterations e k s)) \<or> FIDI (config (iterations e k s))))"
    (is "?l \<longleftrightarrow> ?r")
  proof
    assume ?l
    from main_process_result[OF this] show ?r
      by (auto simp: guard_def)
  next
    assume ?r
    then obtain n where "s' = iterations e n s" "\<not> guard (iterations e n s)"
      "\<forall>k<n. guard (iterations e k s)"
      by (auto simp: guard_def)
    then show ?l
      using main_process_returns[of e n s] by simp
  qed
  show "(\<forall>k. FIDI (config (iterations e k s))) \<longrightarrow> main_process e s = None"
  proof
    assume a: "\<forall>k. FIDI (config (iterations e k s))"
    show "main_process e s = None"
    proof (rule ccontr)
      assume "main_process e s \<noteq> None"
      then obtain s' where "main_process e s = Some s'" by auto
      from main_process_result[OF this] a show False
        by (auto simp: guard_def)
    qed
  qed
qed

lemma shutdown_env_keeps_FIDI: "FIDI (config (iterations shutdown_env k (idle_state sd True)))"
proof -
  have "FIDI (config s) \<Longrightarrow> FIDI (config (iterations shutdown_env k s))" for s
    by (induction k arbitrary: s) (simp_all add: iteration_def shutdown_env_def Let_def pause_buffer_def confirm_change_def arm_if_idle_def)
  then show ?thesis by (simp add: idle_state_def)
qed

theorem main_process_guard_witness:
  "main_process shutdown_env (idle_state False False) = Some (idle_state True False) \<and> main_process shutdown_env (idle_state True True) = None"
proof -
  have 1: "iterations shutdown_env (Suc 0) (idle_state False False) = idle_state True False"
    by (simp add: iteration_def shutdown_env_def idle_state_def Let_def)
  have "\<exists>n. idle_state True False = iterations shutdown_env n (idle_state False False) \<and>
           shutdown (config (idle_state True False)) \<and> \<not> FIDI (config (idle_state True False)) \<and>
           (\<forall>k<n. \<not> shutdown (config (iterations shutdown_env k (idle_state False False))) \<or> FIDI (config (iterations shutdown_env k (idle_state False False))))"
    apply (rule exI[of _ "Suc 0"])
    using 1 by (simp add: idle_state_def)
  then have a: "main_process shutdown_env (idle_state False False) = Some (idle_state True False)"
    using main_process_guard[of shutdown_env "idle_state False False" "idle_state True False"] by blast
  have b: "main_process shutdown_env (idle_state True True) = None"
    using main_process_guard[of shutdown_env "idle_state True True"] shutdown_env_keeps_FIDI by blast
  show ?thesis using a b by simp
qed

section \<open>Methods do not assign to the instance\<close>

lemma frame_return: "frame (State_Monad.return x)"
  by (simp add: frame_def)

lemma frame_get: "frame State_Monad.get"
  by (simp add: frame_def)

lemma frame_bind: "frame m \<Longrightarrow> (\<And>x. frame (f x)) \<Longrightarrow> frame (State_Monad.bind m f)"
  by (simp add: frame_def split: prod.split) (metis snd_conv)

lemma frame_if: "frame a \<Longrightarrow> frame b \<Longrightarrow> frame (if c then a else b)"
  by simp

lemma frame_case_option:
  "frame a \<Longrightarrow> (\<And>x. frame (f x)) \<Longrightarrow> frame (case c of None \<Rightarrow> a | Some x \<Rightarrow> f x)"
  by (cases c) simp_all

lemma frame_case_bool: "frame a \<Longrightarrow> frame b \<Longrightarrow> frame (case c of True \<Rightarrow> a | False \<Rightarrow> b)"
  by (cases c) simp_all

lemma frame_let: "(\<And>x. frame (f x)) \<Longrightarrow> frame (Let e f)"
  by (simp add: Let_def)

lemmas frame_intros = frame_return frame_get frame_bind frame_if frame_case_option
  frame_case_bool frame_let

lemma frame_Rocket_a: "frame (Rocket_a h)"
  unfolding Rocket_a_def by (intro frame_intros)

lemma frame_Rn_star: "frame (Rn_star h)"
  unfolding Rn_star_def by (intro frame_intros frame_Rocket_a)

lemma frame_C_f_star: "frame (C_f_star h)"
  unfolding C_f_star_def by (intro frame_intros frame_Rn_star)

lemma frame_C_f: "frame (C_f h)"
  unfolding C_f_def by (intro frame_intros frame_C_f_star)

lemma frame_C_f_term_star: "frame C_f_term_star"
  unfolding C_f_term_star_def by (intro frame_intros)

lemma frame_C_f_term: "frame C_f_term"
  unfolding C_f_term_def by (intro frame_intros frame_C_f_term_star)

lemma frame_C_f_final: "frame (C_f_final h)"
  unfolding C_f_final_def by (intro frame_intros frame_C_f frame_C_f_term)

lemma frame_body_friction_drag: "frame (body_friction_drag h)"
  unfolding body_friction_drag_def by (intro frame_intros frame_C_f_final)

lemma frame_R_n: "frame (R_n h)"
  unfolding R_n_def by (intro frame_intros frame_Rocket_a)

lemma frame_C_f_lambda: "frame (C_f_lambda h)"
  unfolding C_f_lambda_def by (intro frame_intros frame_C_f_final frame_R_n)

lemma frame_fin_friction_drag: "frame (fin_friction_drag h)"
  unfolding fin_friction_drag_def by (intro frame_intros frame_C_f_lambda)

lemma frame_protuberance_friction_drag: "frame protuberance_friction_drag"
  unfolding protuberance_friction_drag_def by (intro frame_intros)

lemma frame_excrescencies_friction_drag: "frame excrescencies_friction_drag"
  unfolding excrescencies_friction_drag_def by (intro frame_intros)

lemma frame_skin_friction_drag: "frame (skin_friction_drag h)"
  unfolding skin_friction_drag_def
  by (intro frame_intros frame_body_friction_drag frame_fin_friction_drag
      frame_protuberance_friction_drag frame_excrescencies_friction_drag)

lemma frame_Rocket_n: "frame Rocket_n"
  unfolding Rocket_n_def by (intro frame_intros)

lemma frame_K_b: "frame K_b"
  unfolding K_b_def by (intro frame_intros)

lemma frame_base_drag: "frame (base_drag h)"
  unfolding base_drag_def
  by (intro frame_intros frame_K_b frame_Rocket_n frame_skin_friction_drag)

lemma frame_M_d: "frame M_d"
  unfolding M_d_def by (intro frame_intros)

lemma frame_M_f: "frame M_f"
  unfolding M_f_def by (intro frame_intros)

lemma frame_C_d_max: "frame C_d_max"
  unfolding C_d_max_def by (intro frame_intros)

lemma frame_transonic_wave_drag: "frame transonic_wave_drag"
  unfolding transonic_wave_drag_def
  by (intro frame_intros frame_M_d frame_M_f frame_C_d_max)

lemma frame_supersonic_wave_drag: "frame supersonic_wave_drag"
  unfolding supersonic_wave_drag_def by (intro frame_intros)

lemma frame_drag_coefficient: "frame (drag_coefficient h)"
  unfolding drag_coefficient_def
  by (intro frame_intros frame_skin_friction_drag frame_base_drag
      frame_transonic_wave_drag frame_supersonic_wave_drag)

lemma frame_Rocket_v: "frame (Rocket_v h)"
  unfolding Rocket_v_def by (intro frame_intros)

lemmas frames = frame_get frame_return frame_Rocket_a frame_Rn_star frame_C_f_star frame_C_f
  frame_C_f_term_star frame_C_f_term frame_C_f_final frame_body_friction_drag frame_R_n
  frame_C_f_lambda frame_fin_friction_drag frame_protuberance_friction_drag
  frame_excrescencies_friction_drag frame_skin_friction_drag frame_Rocket_n frame_K_b
  frame_base_drag frame_M_d frame_M_f frame_C_d_max frame_transonic_wave_drag
  frame_supersonic_wave_drag frame_drag_coefficient

lemma run_frame: "frame m \<Longrightarrow> run_state m self = (val m self, self)"
  by (simp add: frame_def val_def prod_eq_iff)

lemma val_return: "val (State_Monad.return x) self = x"
  by (simp add: val_def)

lemma val_get: "val State_Monad.get self = self"
  by (simp add: val_def)

lemma val_bind:
  assumes "frame m"
  shows "val (State_Monad.bind m f) self = val (f (val m self)) self"
proof -
  obtain a s' where r: "run_state m self = (a, s')"
    by (cases "run_state m self")
  with assms have "s' = self"
    by (metis frame_def snd_conv)
  with r show ?thesis
    by (simp add: val_def)
qed

lemma val_if: "val (if c then a else b) self = (if c then val a self else val b self)"
  by simp

lemma val_case_option:
  "val (case c of None \<Rightarrow> a | Some x \<Rightarrow> f x) self = (case c of None \<Rightarrow> val a self | Some x \<Rightarrow> val (f x) self)"
  by (cases c) simp_all

lemma val_case_bool:
  "val (case c of True \<Rightarrow> a | False \<Rightarrow> b) self = (case c of True \<Rightarrow> val a self | False \<Rightarrow> val b self)"
  by (cases c) simp_all

lemmas val_simps = val_return val_get val_bind val_if val_case_option val_case_bool

lemma frameD: "frame m \<Longrightarrow> snd (run_state m self) = self"
  by (simp add: frame_def)

text \<open>
  Claim C9. No method of the class assigns to a field: \<open>drag_coefficient(h)\<close> and every
  method it calls, directly or not, returns with the instance it was called on, whatever
  the instance and the altitude, also when the evaluation raises. The fields are set by
  \<open>Rocket_init\<close> alone.
\<close>

theorem Rocket_methods_frame:
  "snd (run_state (drag_coefficient h) self) = self \<and>
   snd (run_state (skin_friction_drag h) self) = self \<and>
   snd (run_state (body_friction_drag h) self) = self \<and>
   snd (run_state (C_f_final h) self) = self \<and>
   snd (run_state (C_f h) self) = self \<and>
   snd (run_state (C_f_star h) self) = self \<and>
   snd (run_state C_f_term self) = self \<and>
   snd (run_state C_f_term_star self) = self \<and>
   snd (run_state (Rn_star h) self) = self \<and>
   snd (run_state (fin_friction_drag h) self) = self \<and>
   snd (run_state (C_f_lambda h) self) = self \<and>
   snd (run_state (R_n h) self) = self \<and>
   snd (run_state protuberance_friction_drag self) = self \<and>
   snd (run_state excrescencies_friction_drag self) = self \<and>
   snd (run_state (base_drag h) self) = self \<and>
   snd (run_state Rocket_n self) = self \<and>
   snd (run_state K_b self) = self \<and>
   snd (run_state (Rocket_a h) self) = self \<and>
   snd (run_state (Rocket_v h) self) = self \<and>
   snd (run_state transonic_wave_drag self) = self \<and>
   snd (run_state M_d self) = self \<and>
   snd (run_state M_f self) = self \<and>
   snd (run_state C_d_max self) = self \<and>
   snd (run_state supersonic_wave_drag self) = self"
  by (intro conjI frameD frames frame_Rocket_v)

section \<open>Values of the drag model\<close>

subsection \<open>Floats among the results\<close>

lemma posfE: "posf a \<Longrightarrow> (\<And>v. a = fl v \<Longrightarrow> 0 < v \<Longrightarrow> P) \<Longrightarrow> P"
  by (auto simp: posf_def fl_def split: option.splits pynum.splits)

lemma nonnegfE: "nonnegf a \<Longrightarrow> (\<And>v. a = fl v \<Longrightarrow> 0 \<le> v \<Longrightarrow> P) \<Longrightarrow> P"
  by (auto simp: nonnegf_def fl_def split: option.splits pynum.splits)

lemma posf_fl: "posf (fl v) \<longleftrightarrow> 0 < v"
  by (simp add: posf_def fl_def)

lemma nonnegf_fl: "nonnegf (fl v) \<longleftrightarrow> 0 \<le> v"
  by (simp add: nonnegf_def fl_def)

lemma posf_nonnegf: "posf a \<Longrightarrow> nonnegf a"
  by (auto elim!: posfE simp: nonnegf_fl)

lemma pmul_fl: "pmul (fl x) (fl y) = fl (x * y)"
  by (simp add: pmul_def fl_def)

lemma padd_fl: "padd (fl x) (fl y) = fl (x + y)"
  by (simp add: padd_def fl_def)

lemma psub_fl: "psub (fl x) (fl y) = fl (x - y)"
  by (simp add: psub_def fl_def)

lemma pdiv_fl: "y \<noteq> 0 \<Longrightarrow> pdiv (fl x) (fl y) = fl (x / y)"
  by (simp add: pdiv_def fl_def)

lemma ppow_fl_pos: "0 < x \<Longrightarrow> ppow (fl x) (fl y) = fl (x powr y)"
  by (simp add: ppow_def fl_def float_pow_def)

lemma plog10_fl: "0 < x \<Longrightarrow> plog10 (fl x) = fl (log 10 x)"
  by (simp add: plog10_def fl_def)

lemma patan_fl: "patan (fl x) = fl (arctan x)"
  by (simp add: patan_def fl_def)

lemma pthen_fl: "pthen (fl x) b = b"
  by (simp add: pthen_def fl_def)

lemma pge_fl: "pge (fl x) (fl y) = Some (x \<ge> y)"
  by (simp add: pge_def fl_def)

lemma ple_fl: "ple (fl x) (fl y) = Some (x \<le> y)"
  by (simp add: ple_def fl_def)

lemma plt_fl: "plt (fl x) (fl y) = Some (x < y)"
  by (simp add: plt_def fl_def)

lemma pgt_fl: "pgt (fl x) (fl y) = Some (x > y)"
  by (simp add: pgt_def fl_def)

lemma posf_pmul: "posf a \<Longrightarrow> posf b \<Longrightarrow> posf (pmul a b)"
  by (auto elim!: posfE simp: pmul_fl posf_fl)

lemma posf_padd: "posf a \<Longrightarrow> posf b \<Longrightarrow> posf (padd a b)"
  by (auto elim!: posfE simp: padd_fl posf_fl)

lemma posf_padd_nonneg: "posf a \<Longrightarrow> nonnegf b \<Longrightarrow> posf (padd a b)"
  by (auto elim!: posfE nonnegfE simp: padd_fl posf_fl)

lemma nonnegf_padd: "nonnegf a \<Longrightarrow> nonnegf b \<Longrightarrow> nonnegf (padd a b)"
  by (auto elim!: nonnegfE simp: padd_fl nonnegf_fl)

lemma nonnegf_pmul: "nonnegf a \<Longrightarrow> nonnegf b \<Longrightarrow> nonnegf (pmul a b)"
  by (auto elim!: nonnegfE simp: pmul_fl nonnegf_fl)

lemma posf_pdiv: "posf a \<Longrightarrow> posf b \<Longrightarrow> posf (pdiv a b)"
  by (auto elim!: posfE simp: pdiv_fl posf_fl)

lemma nonnegf_pdiv: "nonnegf a \<Longrightarrow> posf b \<Longrightarrow> nonnegf (pdiv a b)"
  by (auto elim!: posfE nonnegfE simp: pdiv_fl nonnegf_fl)

lemma posf_ppow: "posf a \<Longrightarrow> posf (ppow a (fl y))"
  by (auto elim!: posfE simp: ppow_fl_pos posf_fl)

lemma posf_pthen: "posf a \<Longrightarrow> pthen a b = b"
  by (auto elim!: posfE simp: pthen_fl)

lemma nonnegf_pthen: "nonnegf a \<Longrightarrow> pthen a b = b"
  by (auto elim!: nonnegfE simp: pthen_fl)

lemma arctan_less_self:
  assumes "0 < t"
  shows "arctan t < t"
proof -
  have "\<exists>z. 0 < z \<and> z < t \<and> (t - arctan t) - (0 - arctan 0) = (t - 0) * (1 - 1 / (1 + z\<^sup>2))"
  proof (rule MVT2[OF assms])
    fix x :: real
    show "((\<lambda>x. x - arctan x) has_real_derivative 1 - 1 / (1 + x\<^sup>2)) (at x)"
      by (auto intro!: derivative_eq_intros simp: field_simps)
  qed
  then obtain z where z: "0 < z" "t - arctan t = t * (1 - 1 / (1 + z\<^sup>2))"
    by auto
  have "0 < z\<^sup>2"
    using z(1) by simp
  then have "0 < 1 + z\<^sup>2" "1 < 1 + z\<^sup>2"
    by linarith+
  then have "1 / (1 + z\<^sup>2) < 1"
    by (subst divide_less_eq_1_pos) assumption+
  then have "0 < t * (1 - 1 / (1 + z\<^sup>2))"
    using assms by simp
  with z(2) show ?thesis
    by simp
qed

lemma ogive_area_pos:
  fixes r L :: real
  assumes "0 < r" "r < L" and a_def: "a = (r\<^sup>2 + L\<^sup>2) / (2 * r)"
  shows "- 1 \<le> L / a" "L / a \<le> 1" "0 < (r - a) * arcsin (L / a) + L"
proof -
  have "0 < r\<^sup>2 + L\<^sup>2"
    using assms(1) by (intro add_pos_nonneg) simp_all
  then have apos: "0 < a"
    using assms(1) by (simp add: a_def)
  have ar: "a - r = (L\<^sup>2 - r\<^sup>2) / (2 * r)"
    using assms by (simp add: a_def field_simps power2_eq_square)
  have "r\<^sup>2 < L\<^sup>2"
    using assms by (simp add: power_strict_mono)
  then have arpos: "0 < a - r"
    using assms ar by simp
  have sq: "a\<^sup>2 - L\<^sup>2 = (a - r)\<^sup>2"
    using assms by (simp add: a_def field_simps power2_eq_square)
  then have "L\<^sup>2 < a\<^sup>2"
    using arpos by (smt (verit) zero_less_power2)
  then have La: "L < a"
    using apos by (simp add: power2_less_imp_less)
  then have x: "0 < L / a" "L / a < 1"
    using apos assms(1,2) by simp_all
  show "- 1 \<le> L / a" "L / a \<le> 1"
    using x by simp_all
  have "1 - (L / a)\<^sup>2 = ((a - r) / a)\<^sup>2"
    using apos sq by (simp add: field_simps power2_eq_square)
  then have "sqrt (1 - (L / a)\<^sup>2) = (a - r) / a"
    using arpos apos by (simp add: real_sqrt_unique)
  then have "arcsin (L / a) = arctan (L / (a - r))"
    using x apos arpos by (simp add: arcsin_arctan)
  moreover have "arctan (L / (a - r)) < L / (a - r)"
    using assms(1,2) arpos by (intro arctan_less_self) simp
  ultimately have "(a - r) * arcsin (L / a) < L"
    using arpos by (simp add: field_simps)
  then show "0 < (r - a) * arcsin (L / a) + L"
    by (simp add: algebra_simps)
qed

lemma S_B_pos: "default_geometry self \<Longrightarrow> 0 < S_B self"
proof -
  assume g: "default_geometry self"
  have "0 < (0.1666 - ogive_a) * arcsin (1.333 / ogive_a) + (1.333 :: real)"
    by (rule ogive_area_pos(3)) (simp_all add: ogive_a_def)
  then show ?thesis
    using g by (simp add: default_geometry_def)
qed

lemma pasin_fl: "- 1 \<le> x \<Longrightarrow> x \<le> 1 \<Longrightarrow> pasin (fl x) = fl (arcsin x)"
  by (simp add: pasin_def fl_def)

lemma Rocket_init_S_B_defined: "Rocket_init_S_B = fl (S_B (Rocket_init vb m))"
proof -
  have a: "pdiv (fl (0.1666\<^sup>2 + 1.333\<^sup>2)) (fl (2 * 0.1666)) = fl ogive_a"
    unfolding ogive_a_def by (rule pdiv_fl) simp
  have nz: "ogive_a \<noteq> 0"
    by (simp add: ogive_a_def power2_eq_square)
  have d: "- 1 \<le> 1.333 / ogive_a" "1.333 / ogive_a \<le> 1"
    by (rule ogive_area_pos(1,2)[where r = "0.1666"]; simp add: ogive_a_def)+
  show ?thesis
    unfolding Rocket_init_S_B_def Let_def a pdiv_fl[OF nz] pasin_fl[OF d] psub_fl pmul_fl padd_fl
    by (simp add: Rocket_init_def)
qed

lemma default_geometry_init: "default_geometry (Rocket_init vb m)"
  by (simp add: default_geometry_def Rocket_init_def mach_per_fps_def)

lemma init_M_range: "0 \<le> m \<Longrightarrow> m < 1 \<Longrightarrow> 0 < M (Rocket_init vb m) \<and> M (Rocket_init vb m) < 1"
  by (simp add: Rocket_init_def mach_per_fps_def)

lemma isflE: "isfl a \<Longrightarrow> (\<And>v. a = fl v \<Longrightarrow> P) \<Longrightarrow> P"
  by (auto simp: isfl_def fl_def split: option.splits pynum.splits)

lemma isfl_fl: "isfl (fl v)"
  by (simp add: isfl_def fl_def)

lemma posf_isfl: "posf a \<Longrightarrow> isfl a"
  by (auto elim!: posfE simp: isfl_fl)

lemma isfl_padd: "isfl a \<Longrightarrow> isfl b \<Longrightarrow> isfl (padd a b)"
  by (auto elim!: isflE simp: padd_fl isfl_fl)

lemma isfl_psub: "isfl a \<Longrightarrow> isfl b \<Longrightarrow> isfl (psub a b)"
  by (auto elim!: isflE simp: psub_fl isfl_fl)

lemma isfl_pmul: "isfl a \<Longrightarrow> isfl b \<Longrightarrow> isfl (pmul a b)"
  by (auto elim!: isflE simp: pmul_fl isfl_fl)

lemma isfl_ppow: "posf a \<Longrightarrow> isfl b \<Longrightarrow> isfl (ppow a b)"
  by (auto elim!: isflE posfE simp: ppow_fl_pos isfl_fl)

lemma posf_ppow_isfl: "posf a \<Longrightarrow> isfl b \<Longrightarrow> posf (ppow a b)"
  by (auto elim!: isflE posfE simp: ppow_fl_pos posf_fl)

lemma isfl_pif_plt: "isfl x \<Longrightarrow> isfl y \<Longrightarrow> isfl a \<Longrightarrow> isfl b \<Longrightarrow> isfl (pif (plt x y) a b)"
  by (auto elim!: isflE simp: plt_fl pif_def isfl_fl)

lemma posf_pif_pgt: "isfl x \<Longrightarrow> isfl y \<Longrightarrow> posf a \<Longrightarrow> posf b \<Longrightarrow> posf (pif (pgt x y) a b)"
  by (auto elim!: isflE simp: pgt_fl pif_def)

subsection \<open>Friction\<close>

lemma posf_Rocket_a: "posf (val (Rocket_a h) self)"
  by (simp add: Rocket_a_def val_simps posf_fl)

lemma poly_Rn_lin:
  fixes x a b c :: real
  assumes "0 < x" "x < 1" "0 \<le> a" "b \<le> 1" "0 \<le> c"
  shows "0 < 1 + 0.0283 * x - 0.043 * x * 2 + 0.2107 * a - 0.03829 * b + 0.002709 * c"
  using assms by simp

lemma poly_Rn_pos:
  fixes x :: real
  assumes "0 < x" "x < 1"
  shows "0 < 1 + 0.0283 * x - 0.043 * x * 2 + 0.2107 * x ^ 3 - 0.03829 * x ^ 4 + 0.002709 * x ^ 5"
  using assms by (intro poly_Rn_lin) (simp_all add: power_le_one)

lemma poly_Cf_lin:
  fixes x a b c d :: real
  assumes "0 < x" "x < 1" "a \<le> 1" "0 \<le> b" "c \<le> 1" "0 \<le> d"
  shows "0 < 1 + 0.00798 * x - 0.1813 * a + 0.0632 * b - 0.00933 * c + 0.000549 * d"
  using assms by simp

lemma poly_Cf_pos:
  fixes x :: real
  assumes "0 < x" "x < 1"
  shows "0 < 1 + 0.00798 * x - 0.1813 * x ^ 2 + 0.0632 * x ^ 3 - 0.00933 * x ^ 4 + 0.000549 * x ^ 5"
  using assms by (intro poly_Cf_lin) (simp_all add: power_le_one)

lemma posf_Rn_star:
  assumes "default_geometry self" "0 < M self" "M self < 1"
  shows "posf (val (Rn_star h) self)"
proof -
  have v: "0 < 12 * velocity self"
    using assms by (simp add: default_geometry_def mach_per_fps_def)
  have l: "0 < body_tube_length self + nose_cone_length self"
    using assms by (simp add: default_geometry_def)
  show ?thesis
    unfolding Rn_star_def
    by (simp only: val_simps frames)
      (intro posf_pmul posf_pdiv posf_Rocket_a posf_fl[THEN iffD2] v l assms(2)
        poly_Rn_pos[OF assms(2,3)])
qed

lemma posf_C_f_star:
  assumes "default_geometry self" "0 < M self" "M self < 1"
  shows "posf (val (C_f_star h) self)"
  unfolding C_f_star_def
  by (simp only: val_simps frames)
    (intro posf_pmul posf_ppow posf_Rn_star[OF assms] posf_fl[THEN iffD2], simp)

lemma posf_C_f:
  assumes "default_geometry self" "0 < M self" "M self < 1"
  shows "posf (val (C_f h) self)"
  unfolding C_f_def
  by (simp only: val_simps frames)
    (intro posf_pmul posf_C_f_star[OF assms] posf_fl[THEN iffD2] poly_Cf_pos[OF assms(2,3)])

lemma posf_C_f_term_star:
  assumes "default_geometry self"
  shows "posf (val C_f_term_star self)"
proof -
  let ?q = "(5.333 + 1.333) / 0.0004 :: real"
  let ?b = "1.89 + 1.62 * log 10 ?q"
  have l: "0 < log 10 ?q"
    by simp
  have b: "0 < ?b"
    by (intro add_pos_pos mult_pos_pos l) simp_all
  have d: "pdiv (fl (5.333 + 1.333)) (fl 0.0004) = fl ?q"
    by (rule pdiv_fl) simp
  have lg: "plog10 (fl ?q) = fl (log 10 ?q)"
    by (rule plog10_fl) simp
  have pw: "ppow (fl ?b) (fl 2.5) = fl (?b powr 2.5)"
    by (rule ppow_fl_pos) (rule b)
  have "posf (ppow (padd (fl 1.89) (pmul (fl 1.62) (plog10 (pdiv (fl (5.333 + 1.333)) (fl 0.0004))))) (fl 2.5))"
    unfolding d lg pmul_fl padd_fl pw posf_fl using b by simp
  then show ?thesis
    using assms unfolding C_f_term_star_def
    by (simp only: val_simps frames default_geometry_def)
      (intro posf_pdiv, simp_all add: posf_fl)
qed

lemma posf_C_f_term:
  assumes "default_geometry self"
  shows "posf (val C_f_term self)"
proof -
  have "0 < 1 + 0.2044 * (M self)\<^sup>2"
    by (intro add_pos_nonneg) simp_all
  then show ?thesis
    unfolding C_f_term_def
    by (simp only: val_simps frames)
      (intro posf_pdiv posf_C_f_term_star[OF assms] posf_fl[THEN iffD2])
qed

lemma posf_C_f_final:
  assumes "default_geometry self" "0 < M self" "M self < 1"
  shows "posf (val (C_f_final h) self)"
proof -
  from posf_C_f[OF assms, of h] obtain c where c: "val (C_f h) self = fl c" "0 < c"
    by (rule posfE)
  from posf_C_f_term[OF assms(1)] obtain t where t: "val C_f_term self = fl t" "0 < t"
    by (rule posfE)
  show ?thesis
    unfolding C_f_final_def
    by (simp add: val_simps frames c t pge_fl posf_fl split: bool.splits)
qed

lemma posf_body_friction_drag:
  assumes "default_geometry self" "0 < M self" "M self < 1"
  shows "posf (val (body_friction_drag h) self)"
proof -
  have d: "0 < diameter self" "0 < body_tube_length self + nose_cone_length self"
    "0 < body_tube_length self"
    using assms(1) by (simp_all add: default_geometry_def)
  have s: "0 < 4 * S_B self"
    using S_B_pos[OF assms(1)] by simp
  have p: "0 < pi * (diameter self)\<^sup>2"
    using d by simp
  show ?thesis
    unfolding body_friction_drag_def
    by (simp only: val_simps frames)
      (intro posf_pmul posf_padd posf_pdiv posf_ppow posf_C_f_final[OF assms]
        posf_fl[THEN iffD2] d s p, simp_all)
qed

lemma val_R_n_500:
  assumes "default_geometry self" "0 < M self"
  shows "val (R_n 500) self = fl (1114.45 * mach_per_fps / 12)"
proof -
  have a: "val (Rocket_a 500) self = fl 1114.45"
    by (simp add: Rocket_a_def val_simps)
  have v: "12 * velocity self \<noteq> 0" "velocity self = M self / mach_per_fps"
    "fin_height_long self = 1" "mach_per_fps \<noteq> 0"
    using assms by (simp_all add: default_geometry_def mach_per_fps_def)
  have "val (R_n 500) self = fl (1114.45 * M self * 1 / (12 * velocity self))"
    unfolding R_n_def using v(1) by (simp add: val_simps frames a pmul_fl pdiv_fl v(3))
  also have "1114.45 * M self * 1 / (12 * velocity self) = 1114.45 * mach_per_fps / 12"
    using assms(2) v(4) by (simp add: v(2))
  finally show ?thesis .
qed

lemma Arg_neg_real: "x < 0 \<Longrightarrow> Arg (complex_of_real x) = pi"
proof (rule cis_Arg_unique)
  assume "x < 0"
  then show "sgn (complex_of_real x) = cis pi"
    by (simp add: sgn_eq)
qed (use pi_gt_zero in simp_all)

lemma ppow_neg_frac:
  assumes "z < 0" "y \<noteq> of_int \<lfloor>y\<rfloor>"
  shows "ppow (fl z) (fl y) = Some (Cx (complex_of_real (\<bar>z\<bar> powr y) * cis (pi * y)))"
proof -
  have "y \<noteq> 0"
    using assms(2) by auto
  then show ?thesis
    using assms by (simp add: ppow_def fl_def float_pow_def complex_pow_def Arg_neg_real)
qed

lemma cis_36: "cis (pi * 3.6) = - cis (pi * 2.6)"
proof -
  have "pi * 3.6 = pi * 2.6 + pi"
    by simp
  then have "cis (pi * 3.6) = cis (pi * 2.6) * cis pi"
    by (simp only: cis_mult)
  then show ?thesis
    by simp
qed

lemma lambda_bracket_neg:
  fixes u w :: real
  assumes "1 < u" "u < w"
  shows "0.333\<^sup>2 / w powr 2.6 - 1 / u powr 2.6
         - 0.5646 * (0.333\<^sup>2 / w powr 3.6 - 1 / u powr 3.6) < 0"
proof -
  define a3 where "a3 = 1 / u powr 2.6"
  define a1 where "a1 = 1 / w powr 2.6"
  define a4 where "a4 = 1 / w powr 3.6"
  define a5 where "a5 = 1 / u powr 3.6"
  have p: "0 < u powr 2.6" "0 < w powr 2.6" "0 < w powr 3.6" "0 < u powr 3.6"
    using assms by simp_all
  have a3: "0 < a3"
    using p by (simp add: a3_def)
  have "u powr 2.6 \<le> w powr 2.6"
    using assms by (intro powr_mono2) simp_all
  then have a1: "a1 \<le> a3"
    using p unfolding a1_def a3_def by (intro divide_left_mono) simp_all
  have a4: "0 \<le> a4"
    using p by (simp add: a4_def)
  have "u powr 2.6 \<le> u powr 3.6"
    using assms by (intro powr_mono) simp_all
  then have a5: "a5 \<le> a3"
    using p unfolding a5_def a3_def by (intro divide_left_mono) simp_all
  have "0.333\<^sup>2 * a1 - a3 - 0.5646 * (0.333\<^sup>2 * a4 - a5) < 0"
    using a3 a1 a4 a5 by (simp add: power2_eq_square)
  then show ?thesis
    by (simp add: a1_def a3_def a4_def a5_def)
qed

lemma lambda_value:
  fixes y \<rho> :: real
  assumes "0 < \<rho>" "\<rho> < 1 / 10"
  defines "u \<equiv> - log 10 \<rho>" and "w \<equiv> - log 10 (\<rho> * 0.333)"
  shows "preal
          (pmul
             (pmul (fl y)
                (pdiv (ppow (plog10 (fl \<rho>)) (fl 2.6)) (psub (ppow (fl 0.333) (fl 2)) (fl 1))))
             (padd
                (psub
                   (pdiv (ppow (fl 0.333) (fl 2)) (ppow (plog10 (pmul (fl \<rho>) (fl 0.333))) (fl 2.6)))
                   (pdiv (fl 1) (ppow (plog10 (fl \<rho>)) (fl 2.6))))
                (pmul (fl 0.5646)
                   (psub
                      (pdiv (ppow (fl 0.333) (fl 2)) (ppow (plog10 (pmul (fl \<rho>) (fl 0.333))) (fl 3.6)))
                      (pdiv (fl 1) (ppow (plog10 (fl \<rho>)) (fl 3.6)))))))
        = fl (y * (u powr 2.6 / (0.333\<^sup>2 - 1))
              * (0.333\<^sup>2 / w powr 2.6 - 1 / u powr 2.6
                 - 0.5646 * (0.333\<^sup>2 / w powr 3.6 - 1 / u powr 3.6)))"
proof -
  have z1: "log 10 \<rho> < 0" "\<bar>log 10 \<rho>\<bar> = u"
    using assms(1,2) by (simp_all add: u_def)
  have z2: "log 10 (\<rho> * 0.333) < 0" "\<bar>log 10 (\<rho> * 0.333)\<bar> = w"
    using assms(1,2) by (simp_all add: w_def)
  have upos: "0 < u" and wpos: "0 < w"
    using z1 z2 by linarith+
  define W where "W = cis (pi * 2.6)"
  have W: "W \<noteq> 0"
    by (simp add: W_def)
  have l2: "ppow (fl 0.333) (fl 2) = fl (0.333\<^sup>2)"
    by (subst ppow_fl_pos) simp_all
  have lg1: "plog10 (fl \<rho>) = fl (log 10 \<rho>)"
    using assms(1) by (rule plog10_fl)
  have lg2: "plog10 (pmul (fl \<rho>) (fl 0.333)) = fl (log 10 (\<rho> * 0.333))"
    unfolding pmul_fl using assms(1) by (intro plog10_fl) simp
  have fr: "(2.6::real) \<noteq> of_int \<lfloor>2.6::real\<rfloor>" "(3.6::real) \<noteq> of_int \<lfloor>3.6::real\<rfloor>"
    by simp_all
  have p1: "ppow (fl (log 10 \<rho>)) (fl 2.6) = Some (Cx (complex_of_real (u powr 2.6) * W))"
    unfolding W_def using ppow_neg_frac[OF z1(1) fr(1), unfolded z1(2)] by simp
  have q1: "ppow (fl (log 10 \<rho>)) (fl 3.6) = Some (Cx (complex_of_real (u powr 3.6) * (- W)))"
    unfolding W_def using ppow_neg_frac[OF z1(1) fr(2), unfolded z1(2) cis_36] by simp
  have p2: "ppow (fl (log 10 (\<rho> * 0.333))) (fl 2.6) = Some (Cx (complex_of_real (w powr 2.6) * W))"
    unfolding W_def using ppow_neg_frac[OF z2(1) fr(1), unfolded z2(2)] by simp
  have q2: "ppow (fl (log 10 (\<rho> * 0.333))) (fl 3.6) = Some (Cx (complex_of_real (w powr 3.6) * (- W)))"
    unfolding W_def using ppow_neg_frac[OF z2(1) fr(2), unfolded z2(2) cis_36] by simp
  have nz: "u powr 2.6 \<noteq> 0" "u powr 3.6 \<noteq> 0" "w powr 2.6 \<noteq> 0" "w powr 3.6 \<noteq> 0"
    using upos wpos by simp_all
  define P1 where "P1 = complex_of_real (u powr 2.6)"
  define Q1 where "Q1 = complex_of_real (u powr 3.6)"
  define P2 where "P2 = complex_of_real (w powr 2.6)"
  define Q2 where "Q2 = complex_of_real (w powr 3.6)"
  define L2 where "L2 = complex_of_real (0.333\<^sup>2)"
  define D where "D = complex_of_real (0.333\<^sup>2 - 1)"
  have cnz: "P1 \<noteq> 0" "Q1 \<noteq> 0" "P2 \<noteq> 0" "Q2 \<noteq> 0" "D \<noteq> 0"
    using nz by (simp_all add: P1_def Q1_def P2_def Q2_def D_def power2_eq_square)
  have alg: "complex_of_real y * (P1 * W / D)
        * (L2 / (P2 * W) - 1 / (P1 * W) + complex_of_real 0.5646 * (L2 / (Q2 * (- W)) - 1 / (Q1 * (- W))))
      = complex_of_real y * (P1 / D)
        * (L2 / P2 - 1 / P1 - complex_of_real 0.5646 * (L2 / Q2 - 1 / Q1))"
    using W cnz by (simp add: field_simps)
  have re: "complex_of_real y * (P1 / D)
        * (L2 / P2 - 1 / P1 - complex_of_real 0.5646 * (L2 / Q2 - 1 / Q1))
      = complex_of_real (y * (u powr 2.6 / (0.333\<^sup>2 - 1))
              * (0.333\<^sup>2 / w powr 2.6 - 1 / u powr 2.6
                 - 0.5646 * (0.333\<^sup>2 / w powr 3.6 - 1 / u powr 3.6)))"
    by (simp add: P1_def Q1_def P2_def Q2_def D_def L2_def)
  have ev: "pmul
             (pmul (fl y)
                (pdiv (Some (Cx (P1 * W))) (psub (fl (0.333\<^sup>2)) (fl 1))))
             (padd
                (psub
                   (pdiv (fl (0.333\<^sup>2)) (Some (Cx (P2 * W))))
                   (pdiv (fl 1) (Some (Cx (P1 * W)))))
                (pmul (fl 0.5646)
                   (psub
                      (pdiv (fl (0.333\<^sup>2)) (Some (Cx (Q2 * (- W)))))
                      (pdiv (fl 1) (Some (Cx (Q1 * (- W))))))))
     = Some (Cx (complex_of_real y * (P1 * W / D)
        * (L2 / (P2 * W) - 1 / (P1 * W) + complex_of_real 0.5646 * (L2 / (Q2 * (- W)) - 1 / (Q1 * (- W))))))"
    using W cnz
    by (simp add: pmul_def pdiv_def psub_def padd_def fl_def D_def L2_def)
  show ?thesis
    unfolding l2 lg1 lg2 p1 q1 p2 q2
    unfolding P1_def[symmetric] Q1_def[symmetric] P2_def[symmetric] Q2_def[symmetric]
    unfolding ev alg re
    by (simp add: preal_def fl_def)
qed

lemma posf_C_f_lambda:
  assumes "default_geometry self" "0 < M self" "M self < 1"
  shows "posf (val (C_f_lambda 500) self)"
proof -
  define \<rho> :: real where "\<rho> = 1114.45 * mach_per_fps / 12"
  have rho: "0 < \<rho>" "\<rho> < 1 / 10"
    by (simp_all add: \<rho>_def mach_per_fps_def)
  have rn: "val (R_n 500) self = fl \<rho>"
    using val_R_n_500[OF assms(1,2)] by (simp add: \<rho>_def)
  from posf_C_f_final[OF assms, of 500] obtain y where
    y: "val (C_f_final 500) self = fl y" "0 < y"
    by (rule posfE)
  have g: "fin_height_short self = 0.333" "fin_height_long self = 1"
    using assms(1) by (simp_all add: default_geometry_def)
  have l: "pdiv (fl 0.333) (fl (of_int 1)) = fl 0.333"
    by (subst pdiv_fl) simp_all
  define u where "u = - log 10 \<rho>"
  define w where "w = - log 10 (\<rho> * 0.333)"
  have u: "1 < u"
  proof -
    have "log 10 \<rho> < log 10 (1 / 10)"
      using rho by (subst log_less_cancel_iff) simp_all
    also have "log 10 (1 / 10) = - 1"
      by (simp add: log_divide)
    finally show ?thesis
      by (simp add: u_def)
  qed
  have w: "u < w"
  proof -
    have "\<rho> * 0.333 < \<rho>"
      using rho(1) by simp
    then have "log 10 (\<rho> * 0.333) < log 10 \<rho>"
      using rho(1) by (subst log_less_cancel_iff) simp_all
    then show ?thesis
      by (simp add: u_def w_def)
  qed
  have b: "0.333\<^sup>2 / w powr 2.6 - 1 / u powr 2.6
         - 0.5646 * (0.333\<^sup>2 / w powr 3.6 - 1 / u powr 3.6) < 0"
    by (rule lambda_bracket_neg[OF u w])
  have "u powr 2.6 / (0.333\<^sup>2 - 1) < 0"
    using u by (intro divide_pos_neg) (simp_all add: power2_eq_square)
  then have q: "0 < y * (u powr 2.6 / (0.333\<^sup>2 - 1))
              * (0.333\<^sup>2 / w powr 2.6 - 1 / u powr 2.6
                 - 0.5646 * (0.333\<^sup>2 / w powr 3.6 - 1 / u powr 3.6))"
    using y(2) b by (intro mult_neg_neg mult_pos_neg) 
  show ?thesis
    unfolding C_f_lambda_def
    apply (simp only: val_simps frames Let_def rn y g l)
    apply (simp only: lambda_value[OF rho] posf_fl)
    using q by (simp only: u_def w_def)
qed

lemma posf_ppow2: "posf a \<Longrightarrow> posf b \<Longrightarrow> posf (ppow a b)"
  by (elim posfE) (simp add: posf_ppow posf_fl)

lemma posf_patan: "posf a \<Longrightarrow> posf (patan a)"
  by (elim posfE) (simp add: patan_fl posf_fl zero_less_arctan_iff)

lemma posf_fin_friction_drag:
  assumes "default_geometry self" "0 < M self" "M self < 1"
  shows "posf (val (fin_friction_drag 500) self)"
proof -
  have g: "0 < fin_thickness self" "0 < real_of_int (fin_height_long self)" "0 < fin_x self"
    "0 < real_of_int (4 * number_of_fins self)" "0 < fin_length self"
    "0 < real_of_int (fin_height_long self) + fin_height_short self"
    "0 < pi * (diameter self)\<^sup>2"
    using assms(1) by (simp_all add: default_geometry_def)
  show ?thesis
    unfolding fin_friction_drag_def
    by (simp only: val_simps frames)
      (intro posf_pmul posf_padd posf_pdiv posf_ppow posf_C_f_lambda[OF assms]
        posf_fl[THEN iffD2] g, simp_all)
qed

lemma nonnegf_excrescencies:
  assumes "default_geometry self" "0 \<le> excrescencies_k (M self)"
  shows "nonnegf (val excrescencies_friction_drag self)"
proof -
  have "0 \<le> excrescencies_k (M self) * 4 * S_B self"
    using assms(2) S_B_pos[OF assms(1)] by simp
  moreover have "0 < pi * (2 * radius self)\<^sup>2"
    using assms(1) by (simp add: default_geometry_def)
  ultimately show ?thesis
    unfolding excrescencies_friction_drag_def
    by (simp only: val_simps frames Let_def)
      (intro nonnegf_pdiv nonnegf_fl[THEN iffD2] posf_fl[THEN iffD2])
qed

lemma posf_skin_friction_drag:
  assumes "default_geometry self" "0 < M self" "M self < 1" "0 \<le> excrescencies_k (M self)"
  shows "posf (val (skin_friction_drag 500) self)"
proof -
  have k: "0 < K_f self"
    using assms(1) by (simp add: default_geometry_def)
  note b = posf_body_friction_drag[OF assms(1-3), of 500]
  note f = posf_fin_friction_drag[OF assms(1-3)]
  have p: "val protuberance_friction_drag self = fl 0"
    by (simp add: protuberance_friction_drag_def val_simps)
  have sh: "pthen (val (body_friction_drag 500) self)
              (pthen (val (fin_friction_drag 500) self) (fl 0)) = fl 0"
    by (simp add: posf_pthen[OF b] posf_pthen[OF f])
  have main: "posf (padd (padd (padd (val (body_friction_drag 500) self)
                 (pmul (fl (K_f self)) (val (fin_friction_drag 500) self)))
                 (pmul (fl (K_f self)) (fl 0)))
                 (val excrescencies_friction_drag self))"
    by (intro posf_padd_nonneg posf_padd posf_pmul b f posf_fl[THEN iffD2] k
        nonnegf_excrescencies[OF assms(1,4)]) (simp add: pmul_fl nonnegf_fl)
  show ?thesis
    unfolding skin_friction_drag_def
    by (simp only: val_simps frames frame_intros p sh pthen_fl main if_cancel)
qed

subsection \<open>Base drag\<close>

lemma val_K_b:
  assumes "diameter self \<noteq> 0"
  shows "val K_b self = fl (0.0274 * arctan (body_tube_length self / diameter self + 0.0116))"
  unfolding K_b_def using assms
  by (simp add: val_simps frames pdiv_fl padd_fl patan_fl pmul_fl)

lemma val_Rocket_n:
  assumes "diameter self \<noteq> 0" "0 < body_tube_length self / diameter self"
  shows "val Rocket_n self = fl (3.6542 * (body_tube_length self / diameter self) powr (- 0.2733))"
  unfolding Rocket_n_def using assms
  by (simp add: val_simps frames pdiv_fl ppow_fl_pos pmul_fl)

lemma val_base_drag:
  assumes "radius self \<noteq> 0" "diameter self \<noteq> 0"
    "0 < body_tube_length self / diameter self"
    "0 < boat_tail_radius self / radius self"
    "val (skin_friction_drag h) self = fl s" "0 < s"
  shows "val (base_drag h) self =
     pmul (fl (0.0274 * arctan (body_tube_length self / diameter self + 0.0116)
           * ((boat_tail_radius self / radius self)
                powr (3.6542 * (body_tube_length self / diameter self) powr (- 0.2733))
              / sqrt s)))
       (fl (if M self > 0.6 then
              (if M self < 1 then 1 + 215.8 * (M self - 0.6) ^ 6
               else if M self < 2 then
                 2.0881 * ((M self - 1) ^ 3) - 3.7938 * ((M self - 1) ^ 2)
                   + 1.4618 * (M self - 1) + 1.883917
               else 0.297 * (M self - 2) ^ 3 - 0.7937 * (M self - 2) ^ 2
                   - 0.1115 * (M self - 2) + 1.64006)
            else 1))"
proof -
  have sq: "ppow (fl s) (fl (1 / 2)) = fl (sqrt s)"
    using assms(6) by (simp add: ppow_fl_pos powr_half_sqrt)
  have nz: "sqrt s \<noteq> 0"
    using assms(6) by simp
  have ratio: "pdiv (fl (boat_tail_radius self)) (fl (radius self))
      = fl (boat_tail_radius self / radius self)"
    using assms(1) by (rule pdiv_fl)
  define n where "n = 3.6542 * (body_tube_length self / diameter self) powr (- 0.2733)"
  define kb where "kb = 0.0274 * arctan (body_tube_length self / diameter self + 0.0116)"
  have b_d: "pmul (fl kb)
       (pdiv (ppow (pdiv (fl (boat_tail_radius self)) (fl (radius self))) (fl n))
             (ppow (fl s) (fl (1 / 2))))
     = fl (kb * ((boat_tail_radius self / radius self) powr n / sqrt s))"
    unfolding ratio sq ppow_fl_pos[OF assms(4)] pdiv_fl[OF nz] pmul_fl ..
  have v: "val (base_drag h) self =
     (if M self > 0.6 then
          (if M self < 1 then pmul (fl (kb * ((boat_tail_radius self / radius self) powr n / sqrt s))) (fl (1 + 215.8 * (M self - 0.6) ^ 6))
           else if M self < 2 then
             pmul (fl (kb * ((boat_tail_radius self / radius self) powr n / sqrt s))) (fl (2.0881 * ((M self - 1) ^ 3) - 3.7938 * ((M self - 1) ^ 2)
                           + 1.4618 * (M self - 1) + 1.883917))
           else
             pmul (fl (kb * ((boat_tail_radius self / radius self) powr n / sqrt s))) (fl (0.297 * (M self - 2) ^ 3 - 0.7937 * (M self - 2) ^ 2
                           - 0.1115 * (M self - 2) + 1.64006)))
        else fl (kb * ((boat_tail_radius self / radius self) powr n / sqrt s)))"
    unfolding base_drag_def
    by (simp only: val_simps frames Let_def val_K_b[OF assms(2)] val_Rocket_n[OF assms(2,3)]
        assms(5) kb_def[symmetric] n_def[symmetric] b_d)
  show ?thesis
    unfolding v kb_def[symmetric] n_def[symmetric] by (simp add: pmul_fl)
qed

text \<open>
  Claim C7. Where the divisions are defined, the two quotients are positive and
  \<open>skin_friction_drag(h)\<close> is a positive float \<open>s\<close>, the exponent is
  \<open>n = 3.6542 (L_b/d)^(-0.2733)\<close>, the factor is \<open>K_b = 0.0274 atan(L_b/d + 0.0116)\<close>,
  and \<open>base_drag(h)\<close> is \<open>K_b (boat_tail_radius/radius)^n / sqrt s\<close>, unscaled for
  \<open>M \<le> 0.6\<close> and scaled by the stated polynomial on each of \<open>0.6 < M < 1\<close>,
  \<open>1 \<le> M < 2\<close> and \<open>2 \<le> M\<close>.
\<close>

theorem base_drag_formula:
  assumes "radius self \<noteq> 0" "diameter self \<noteq> 0"
    "0 < body_tube_length self / diameter self"
    "0 < boat_tail_radius self / radius self"
    "val (skin_friction_drag h) self = fl s" "0 < s"
  shows "val Rocket_n self = fl (3.6542 * (body_tube_length self / diameter self) powr (- 0.2733)) \<and>
    val K_b self = fl (0.0274 * arctan (body_tube_length self / diameter self + 0.0116)) \<and>
    (let n = 3.6542 * (body_tube_length self / diameter self) powr (- 0.2733);
         kb = 0.0274 * arctan (body_tube_length self / diameter self + 0.0116);
         b_d = kb * (boat_tail_radius self / radius self) powr n / sqrt s
     in (M self \<le> 0.6 \<longrightarrow> val (base_drag h) self = fl b_d) \<and>
        (0.6 < M self \<and> M self < 1 \<longrightarrow>
           val (base_drag h) self = fl (b_d * (1 + 215.8 * (M self - 0.6) ^ 6))) \<and>
        (1 \<le> M self \<and> M self < 2 \<longrightarrow>
           val (base_drag h) self =
             fl (b_d * (2.0881 * (M self - 1) ^ 3 - 3.7938 * (M self - 1) ^ 2
                        + 1.4618 * (M self - 1) + 1.883917))) \<and>
        (2 \<le> M self \<longrightarrow>
           val (base_drag h) self =
             fl (b_d * (0.297 * (M self - 2) ^ 3 - 0.7937 * (M self - 2) ^ 2
                        - 0.1115 * (M self - 2) + 1.64006))))"
proof -
  have b: "val (base_drag h) self =
     pmul (fl (0.0274 * arctan (body_tube_length self / diameter self + 0.0116)
           * ((boat_tail_radius self / radius self)
                powr (3.6542 * (body_tube_length self / diameter self) powr (- 0.2733))
              / sqrt s)))
       (fl (if M self > 0.6 then
              (if M self < 1 then 1 + 215.8 * (M self - 0.6) ^ 6
               else if M self < 2 then
                 2.0881 * ((M self - 1) ^ 3) - 3.7938 * ((M self - 1) ^ 2)
                   + 1.4618 * (M self - 1) + 1.883917
               else 0.297 * (M self - 2) ^ 3 - 0.7937 * (M self - 2) ^ 2
                   - 0.1115 * (M self - 2) + 1.64006)
            else 1))"
    by (rule val_base_drag[OF assms])
  show ?thesis
    unfolding Let_def b pmul_fl
    using val_Rocket_n[OF assms(2,3)] val_K_b[OF assms(2)] by (auto simp: fl_def)
qed

subsection \<open>Wave drag and the total\<close>

lemma excrescencies_k_grid:
  assumes "i < 100"
  shows "0 \<le> excrescencies_k (real i * 0.01)"
proof (cases "i < 78")
  case True
  then have "real i * 0.01 < 0.78"
    by simp
  then show ?thesis
    by (simp add: excrescencies_k_def)
next
  case False
  with assms have "78 \<le> i" "i \<le> 99"
    by simp_all
  then have "i = 78 \<or> i = 79 \<or> i = 80 \<or> i = 81 \<or> i = 82 \<or> i = 83 \<or> i = 84 \<or> i = 85 \<or> i = 86 \<or> i = 87 \<or> i = 88 \<or> i = 89 \<or> i = 90 \<or> i = 91 \<or> i = 92 \<or> i = 93 \<or> i = 94 \<or> i = 95 \<or> i = 96 \<or> i = 97 \<or> i = 98 \<or> i = 99"
    by presburger
  then show ?thesis
    by (elim disjE) (simp_all add: excrescencies_k_def power_divide)
qed

lemma isfl_M_d:
  assumes "default_geometry self"
  shows "isfl (val M_d self)"
proof -
  have g: "0 < nose_cone_length self" "0 < 2 * radius self"
    using assms by (simp_all add: default_geometry_def)
  show ?thesis
    unfolding M_d_def
    by (simp only: val_simps frames)
      (intro isfl_padd isfl_pmul isfl_ppow posf_isfl posf_pdiv isfl_fl posf_fl[THEN iffD2] g)
qed

lemma isfl_M_f:
  assumes "default_geometry self"
  shows "isfl (val M_f self)"
proof -
  have g: "0 < nose_cone_length self" "0 < 2 * radius self"
    "0 < nose_cone_length self + body_tube_length self"
    using assms by (simp_all add: default_geometry_def)
  show ?thesis
    unfolding M_f_def
    by (simp only: val_simps frames Let_def)
      (intro isfl_padd isfl_psub isfl_pmul isfl_ppow isfl_pif_plt posf_isfl posf_pdiv isfl_fl
        posf_fl[THEN iffD2] g)
qed

lemma posf_C_d_max:
  assumes "default_geometry self"
  shows "posf (val C_d_max self)"
proof -
  have g: "nose_cone_length self = 1.333" "body_tube_length self = 5.333" "radius self = 0.1666"
    using assms by (simp_all add: default_geometry_def)
  have q: "pdiv (fl 1.333) (fl 5.333) = fl (1.333 / 5.333)"
    by (rule pdiv_fl) simp
  have q2: "ppow (fl (1.333 / 5.333)) (fl 2) = fl ((1.333 / 5.333)\<^sup>2)"
    by (subst ppow_fl_pos) simp_all
  have c: "posf (padd (psub (pmul (fl 50.676) (fl ((1.333 / 5.333)\<^sup>2)))
                 (pmul (fl 51.734) (fl (1.333 / 5.333)))) (fl 15.642))"
    by (simp add: pmul_fl psub_fl padd_fl posf_fl power2_eq_square)
  have d: "posf (pdiv (fl (1.333 + 5.333)) (fl (2 * 0.1666)))"
    by (intro posf_pdiv posf_fl[THEN iffD2]) simp_all
  show ?thesis
    unfolding C_d_max_def
    by (simp only: val_simps frames Let_def g q q2)
      (intro posf_pif_pgt posf_pmul posf_ppow_isfl c d posf_isfl[OF d] isfl_fl isfl_psub
        isfl_padd isfl_pmul posf_fl[THEN iffD2], simp)
qed

lemma nonnegf_transonic_wave_drag:
  assumes "default_geometry self"
  shows "nonnegf (val transonic_wave_drag self)"
proof -
  from isfl_M_d[OF assms] obtain md where md: "val M_d self = fl md"
    by (rule isflE)
  from isfl_M_f[OF assms] obtain mf where mf: "val M_f self = fl mf"
    by (rule isflE)
  note c = posf_nonnegf[OF posf_C_d_max[OF assms]]
  show ?thesis
    unfolding transonic_wave_drag_def
    by (simp add: val_simps frames frame_intros md mf ple_fl c nonnegf_fl split: bool.splits)
qed

lemma posf_base_drag:
  assumes "default_geometry self" "0 < M self" "M self < 1" "0 \<le> excrescencies_k (M self)"
  shows "posf (val (base_drag 500) self)"
proof -
  from posf_skin_friction_drag[OF assms] obtain s where
    s: "val (skin_friction_drag 500) self = fl s" "0 < s"
    by (rule posfE)
  have g: "radius self \<noteq> 0" "diameter self \<noteq> 0"
    "0 < body_tube_length self / diameter self" "0 < boat_tail_radius self / radius self"
    using assms(1) by (simp_all add: default_geometry_def)
  have "0 < arctan (body_tube_length self / diameter self + 0.0116)"
    using g(3) by (simp add: zero_less_arctan_iff add_pos_pos)
  moreover have "0 < (boat_tail_radius self / radius self)
                powr (3.6542 * (body_tube_length self / diameter self) powr (- 0.2733))"
    using g(4) by (subst powr_gt_zero) (rule less_imp_neq[THEN not_sym])
  moreover have "0 < sqrt s"
    using s(2) by simp
  ultimately have k: "0 < 0.0274 * arctan (body_tube_length self / diameter self + 0.0116)
           * ((boat_tail_radius self / radius self)
                powr (3.6542 * (body_tube_length self / diameter self) powr (- 0.2733))
              / sqrt s)"
    by (intro mult_pos_pos divide_pos_pos) simp_all
  have m: "0 < 1 + 215.8 * (M self - 0.6) ^ 6"
    by (intro add_pos_nonneg mult_nonneg_nonneg) simp_all
  show ?thesis
    unfolding val_base_drag[OF g s]
    using assms(3) k m by (intro posf_pmul posf_fl[THEN iffD2]) auto
qed

theorem base_drag_formula_witness:
  "\<exists>s. 0 < s \<and> val (skin_friction_drag 500) (Rocket_init False 0.7) = fl s \<and>
     val (base_drag 500) (Rocket_init False 0.7) =
       fl (0.0274 * arctan (5.333 / (2 * 0.1666) + 0.0116)
           * (0.1666 / 0.1666) powr (3.6542 * (5.333 / (2 * 0.1666)) powr (- 0.2733))
           / sqrt s * (1 + 215.8 * (0.7 - 0.6) ^ 6))"
proof -
  let ?r = "Rocket_init False 0.7"
  have f: "radius ?r = 0.1666" "diameter ?r = 2 * 0.1666" "body_tube_length ?r = 5.333"
    "boat_tail_radius ?r = 0.1666" "M ?r = 0.7"
    by (simp_all add: Rocket_init_def)
  have k: "0 \<le> excrescencies_k (M ?r)"
    by (simp add: f excrescencies_k_def)
  have m: "0 < M ?r" "M ?r < 1"
    by (simp_all add: f)
  from posf_skin_friction_drag[OF default_geometry_init m k] obtain s where
    s: "val (skin_friction_drag 500) ?r = fl s" "0 < s"
    by (rule posfE)
  have h: "radius ?r \<noteq> 0" "diameter ?r \<noteq> 0" "0 < body_tube_length ?r / diameter ?r"
    "0 < boat_tail_radius ?r / radius ?r"
    by (simp_all add: f)
  have r: "0.6 < M ?r \<and> M ?r < 1"
    by (simp add: f)
  from base_drag_formula[OF h s] r
  have "val (base_drag 500) ?r =
       fl (0.0274 * arctan (body_tube_length ?r / diameter ?r + 0.0116)
           * (boat_tail_radius ?r / radius ?r)
               powr (3.6542 * (body_tube_length ?r / diameter ?r) powr (- 0.2733))
           / sqrt s * (1 + 215.8 * (M ?r - 0.6) ^ 6))"
    unfolding Let_def by blast
  then have "val (base_drag 500) ?r =
       fl (0.0274 * arctan (5.333 / (2 * 0.1666) + 0.0116)
           * (0.1666 / 0.1666) powr (3.6542 * (5.333 / (2 * 0.1666)) powr (- 0.2733))
           / sqrt s * (1 + 215.8 * (0.7 - 0.6) ^ 6))"
    unfolding f .
  with s show ?thesis
    by blast
qed

subsection \<open>Bounds on the values at 500 ft\<close>

lemma float_between_fl: "float_between lo hi (fl v) \<longleftrightarrow> lo \<le> v \<and> v \<le> hi"
  by (simp add: float_between_def fl_def)

lemma float_betweenE:
  "float_between lo hi a \<Longrightarrow> (\<And>v. a = fl v \<Longrightarrow> lo \<le> v \<Longrightarrow> v \<le> hi \<Longrightarrow> P) \<Longrightarrow> P"
  by (auto simp: float_between_def fl_def split: option.splits pynum.splits)

lemma poly_Rn_lower_lin:
  fixes x a b c :: real
  assumes "0 < x" "x < 1" "0 \<le> a" "b \<le> 1" "0 \<le> c"
  shows "9 / 10 \<le> 1 + 0.0283 * x - 0.043 * x * 2 + 0.2107 * a - 0.03829 * b + 0.002709 * c"
  using assms by simp

lemma poly_Rn_lower:
  fixes x :: real
  assumes "0 < x" "x < 1"
  shows "9 / 10 \<le> 1 + 0.0283 * x - 0.043 * x * 2 + 0.2107 * x ^ 3 - 0.03829 * x ^ 4
                  + 0.002709 * x ^ 5"
  using assms by (intro poly_Rn_lower_lin) (simp_all add: power_le_one)

lemma poly_Rn_upper_lin:
  fixes x a b c :: real
  assumes "0 < x" "x < 1" "a \<le> 1" "0 \<le> b" "c \<le> 1"
  shows "1 + 0.0283 * x - 0.043 * x * 2 + 0.2107 * a - 0.03829 * b + 0.002709 * c \<le> 5 / 4"
  using assms by simp

lemma poly_Rn_upper:
  fixes x :: real
  assumes "0 < x" "x < 1"
  shows "1 + 0.0283 * x - 0.043 * x * 2 + 0.2107 * x ^ 3 - 0.03829 * x ^ 4
           + 0.002709 * x ^ 5 \<le> 5 / 4"
  using assms by (intro poly_Rn_upper_lin) (simp_all add: power_le_one)

lemma poly_Cf_upper_lin:
  fixes x a b c d :: real
  assumes "0 < x" "x < 1" "0 \<le> a" "b \<le> 1" "0 \<le> c" "d \<le> 1"
  shows "1 + 0.00798 * x - 0.1813 * a + 0.0632 * b - 0.00933 * c + 0.000549 * d \<le> 11 / 10"
  using assms by simp

lemma poly_Cf_upper:
  fixes x :: real
  assumes "0 < x" "x < 1"
  shows "1 + 0.00798 * x - 0.1813 * x ^ 2 + 0.0632 * x ^ 3 - 0.00933 * x ^ 4 + 0.000549 * x ^ 5
         \<le> 11 / 10"
  using assms by (intro poly_Cf_upper_lin) (simp_all add: power_le_one)

lemma Rn_star_500_lower:
  assumes "default_geometry self" "0 < M self" "M self < 1"
  shows "float_between (1 / 4) 1 (val (Rn_star 500) self)"
proof -
  define P where "P = 1 + 0.0283 * M self - 0.043 * M self * 2 + 0.2107 * M self ^ 3
               - 0.03829 * M self ^ 4 + 0.002709 * M self ^ 5"
  have a: "val (Rocket_a 500) self = fl 1114.45"
    by (simp add: Rocket_a_def val_simps)
  have g: "body_tube_length self = 5.333" "nose_cone_length self = 1.333"
    "velocity self = M self / mach_per_fps"
    using assms(1) by (simp_all add: default_geometry_def)
  have v: "12 * (M self / mach_per_fps) \<noteq> 0"
    using assms(2) by (simp add: mach_per_fps_def)
  have q: "1114.45 * M self * (5.333 + 1.333) / (12 * (M self / mach_per_fps))
      = 1114.45 * (5.333 + 1.333) * mach_per_fps / 12"
    using assms(2) by (simp add: mach_per_fps_def)
  have "val (Rn_star 500) self
      = fl (1114.45 * M self * (5.333 + 1.333) / (12 * (M self / mach_per_fps)) * P)"
    unfolding Rn_star_def
    by (simp only: val_simps frames a g pmul_fl pdiv_fl[OF v] P_def)
  then have e0: "val (Rn_star 500) self = fl (1114.45 * (5.333 + 1.333) * mach_per_fps / 12 * P)"
    by (simp only: q)
  define K :: real where "K = 1114.45 * (5.333 + 1.333) * mach_per_fps / 12"
  have e: "val (Rn_star 500) self = fl (K * P)"
    unfolding K_def by (rule e0)
  have c: "1 / 2 \<le> K" "K \<le> 6 / 10"
    by (simp_all add: K_def mach_per_fps_def)
  have p: "9 / 10 \<le> P" "P \<le> 5 / 4"
    unfolding P_def by (rule poly_Rn_lower[OF assms(2,3)], rule poly_Rn_upper[OF assms(2,3)])
  have lo: "1 / 2 * (9 / 10) \<le> K * P"
    using c(1) p(1) by (intro mult_mono) simp_all
  have hi: "K * P \<le> 6 / 10 * (5 / 4)"
    using c p by (intro mult_mono) simp_all
  show ?thesis
    unfolding e float_between_fl using lo hi by simp
qed

lemma powr_neg_le_four:
  fixes x p :: real
  assumes "1 / 4 \<le> x" "0 \<le> p" "p \<le> 1"
  shows "x powr (- p) \<le> 4"
proof (cases "1 \<le> x")
  case True
  then have "x powr (- p) \<le> x powr 0"
    using assms(2) by (intro powr_mono) simp_all
  then show ?thesis
    using True by simp
next
  case False
  then have x: "0 < x" "x \<le> 1"
    using assms(1) by simp_all
  have "x powr (- p) \<le> x powr (- 1)"
    using assms(3) x by (intro powr_mono') simp_all
  also have "x powr (- 1) = 1 / x"
    using x(1) by (simp add: powr_minus powr_one inverse_eq_divide)
  also have "1 / x \<le> 4"
    using assms(1) x(1) by (simp add: field_simps)
  finally show ?thesis .
qed

lemma C_f_star_500_bounds:
  assumes "default_geometry self" "0 < M self" "M self < 1"
  shows "float_between 0 (3 / 20) (val (C_f_star 500) self)"
proof -
  from Rn_star_500_lower[OF assms] obtain x where
    x: "val (Rn_star 500) self = fl x" "1 / 4 \<le> x"
    by (rule float_betweenE)
  have xp: "0 < x"
    using x(2) by simp
  have e: "val (C_f_star 500) self = fl (0.037036 * x powr (- 0.155079))"
    unfolding C_f_star_def
    by (simp only: val_simps frames x(1) ppow_fl_pos[OF xp] pmul_fl)
  define t where "t = x powr (- 0.155079)"
  have t: "0 \<le> t" "t \<le> 4"
    unfolding t_def using powr_neg_le_four[OF x(2), of "0.155079"] by simp_all
  have "0.037036 * t \<le> 0.037036 * 4"
    using t(2) by (intro mult_left_mono) simp_all
  then have "0 \<le> 0.037036 * t \<and> 0.037036 * t \<le> 3 / 20"
    using t(1) by simp
  then show ?thesis
    unfolding e float_between_fl t_def .
qed

lemma C_f_500_bounds:
  assumes "default_geometry self" "0 < M self" "M self < 1"
  shows "float_between 0 1 (val (C_f 500) self)"
proof -
  from C_f_star_500_bounds[OF assms] obtain s where
    s: "val (C_f_star 500) self = fl s" "0 \<le> s" "s \<le> 3 / 20"
    by (rule float_betweenE)
  define P where "P = 1 + 0.00798 * M self - 0.1813 * M self ^ 2 + 0.0632 * M self ^ 3
               - 0.00933 * M self ^ 4 + 0.000549 * M self ^ 5"
  have e: "val (C_f 500) self = fl (s * P)"
    unfolding C_f_def
    by (simp only: val_simps frames s(1) pmul_fl P_def)
  have p: "0 < P" "P \<le> 11 / 10"
    unfolding P_def by (rule poly_Cf_pos[OF assms(2,3)], rule poly_Cf_upper[OF assms(2,3)])
  have lo: "0 \<le> s * P"
    using s(2) p(1) by simp
  have "s * P \<le> 3 / 20 * (11 / 10)"
    using s p by (intro mult_mono) simp_all
  then have hi: "s * P \<le> 1"
    by simp
  show ?thesis
    unfolding e float_between_fl using lo hi by simp
qed

lemma C_f_term_star_bounds:
  assumes "default_geometry self"
  shows "float_between (1 / 1000) 1 (val C_f_term_star self)"
proof -
  let ?q = "(5.333 + 1.333) / 0.0004 :: real"
  define lg where "lg = log 10 ?q"
  define b where "b = 1.89 + 1.62 * lg"
  have l0: "0 < lg"
    unfolding lg_def by simp
  have "?q \<le> 10 powr 5"
    by simp
  then have l5: "lg \<le> 5"
    unfolding lg_def by (subst log_le_iff) simp_all
  have b1: "1 \<le> b"
  proof -
    have "0 \<le> 1.62 * lg"
      using l0 by simp
    then show ?thesis
      unfolding b_def by simp
  qed
  have b10: "b \<le> 10"
  proof -
    have "1.62 * lg \<le> 1.62 * 5"
      using l5 by (intro mult_left_mono) simp_all
    then show ?thesis
      unfolding b_def by simp
  qed
  define w where "w = b powr 2.5"
  have w1: "1 \<le> w"
    unfolding w_def using b1 by (intro ge_one_powr_ge_zero) simp_all
  have "b powr 2.5 \<le> 10 powr 2.5"
    using b1 b10 by (intro powr_mono2) simp_all
  also have "(10::real) powr 2.5 \<le> 10 powr 3"
    by (intro powr_mono) simp_all
  also have "(10::real) powr 3 = 1000"
    by simp
  finally have w1000: "w \<le> 1000"
    unfolding w_def .
  have d: "pdiv (fl (5.333 + 1.333)) (fl 0.0004) = fl ?q"
    by (rule pdiv_fl) simp
  have lgq: "plog10 (fl ?q) = fl lg"
    unfolding lg_def by (rule plog10_fl) simp
  have bp: "0 < b"
    using b1 by simp
  have wnz: "w \<noteq> 0"
    using w1 by simp
  have g: "body_tube_length self = 5.333" "nose_cone_length self = 1.333" "K self = 0.0004"
    using assms by (simp_all add: default_geometry_def)
  have e: "val C_f_term_star self = fl (1 / w)"
    unfolding C_f_term_star_def
    by (simp only: val_simps frames g d lgq pmul_fl padd_fl b_def[symmetric]
        ppow_fl_pos[OF bp] w_def[symmetric] pdiv_fl[OF wnz])
  have "1 / 1000 \<le> 1 / w"
    using w1 w1000 by (intro divide_left_mono) simp_all
  moreover have "1 / w \<le> 1"
    using w1 by simp
  ultimately show ?thesis
    unfolding e float_between_fl by simp
qed

lemma C_f_term_bounds:
  assumes "default_geometry self" "0 < M self" "M self < 1"
  shows "float_between (1 / 1205) 1 (val C_f_term self)"
proof -
  from C_f_term_star_bounds[OF assms(1)] obtain c where
    c: "val C_f_term_star self = fl c" "1 / 1000 \<le> c" "c \<le> 1"
    by (rule float_betweenE)
  define D where "D = 1 + 0.2044 * (M self)\<^sup>2"
  have m2: "0 \<le> (M self)\<^sup>2" "(M self)\<^sup>2 \<le> 1"
    using assms(2,3) by (simp_all add: power_le_one)
  have D: "1 \<le> D" "D \<le> 1205 / 1000"
  proof -
    have "0 \<le> 0.2044 * (M self)\<^sup>2"
      using m2(1) by simp
    then show "1 \<le> D"
      unfolding D_def by simp
    have "0.2044 * (M self)\<^sup>2 \<le> 0.2044 * 1"
      using m2(2) by (intro mult_left_mono) simp_all
    then show "D \<le> 1205 / 1000"
      unfolding D_def by simp
  qed
  have dnz: "D \<noteq> 0"
    using D(1) by simp
  have e: "val C_f_term self = fl (c / D)"
    unfolding C_f_term_def
    by (simp only: val_simps frames c(1) D_def[symmetric] pdiv_fl[OF dnz])
  have "(1 / 1000) / (1205 / 1000) \<le> c / D"
    using c(2) D by (intro frac_le) simp_all
  then have lo: "1 / 1205 \<le> c / D"
    by simp
  have "c / D \<le> 1 / 1"
    using c D(1) by (intro frac_le) simp_all
  then have hi: "c / D \<le> 1"
    by simp
  show ?thesis
    unfolding e float_between_fl using lo hi by simp
qed

lemma C_f_final_500_bounds:
  assumes "default_geometry self" "0 < M self" "M self < 1"
  shows "float_between (1 / 1205) 1 (val (C_f_final 500) self)"
proof -
  from C_f_500_bounds[OF assms] obtain c where
    c: "val (C_f 500) self = fl c" "0 \<le> c" "c \<le> 1"
    by (rule float_betweenE)
  from C_f_term_bounds[OF assms] obtain t where
    t: "val C_f_term self = fl t" "1 / 1205 \<le> t" "t \<le> 1"
    by (rule float_betweenE)
  have e: "val (C_f_final 500) self = fl (if c \<ge> t then c else t)"
    unfolding C_f_final_def
    by (simp add: val_simps frames c(1) t(1) pge_fl split: bool.splits)
  show ?thesis
    unfolding e float_between_fl using c t by auto
qed

lemma lambda_lin_lower:
  fixes a3 a5 b1 b4 :: real
  assumes "0 < a3" "0 \<le> a5" "a5 \<le> a3" "b1 \<le> 0.110889 * a3" "0 \<le> b1" "b4 \<le> 0.110889 * a3" "0 \<le> b4"
  shows "0.3245 * a3 \<le> a3 - b1 + 0.5646 * (b4 - a5)"
proof -
  have 1: "a3 - 0.110889 * a3 \<le> a3 - b1"
    using assms(4) by (rule diff_left_mono)
  have "0.5646 * (0 - a3) \<le> 0.5646 * (b4 - a5)"
    using assms(3,7) by (intro mult_left_mono diff_mono) simp_all
  with 1 have "(a3 - 0.110889 * a3) + 0.5646 * (0 - a3) \<le> a3 - b1 + 0.5646 * (b4 - a5)"
    by (rule add_mono)
  moreover have "0.3245 * a3 \<le> (a3 - 0.110889 * a3) + 0.5646 * (0 - a3)"
    using assms(1) by (simp add: algebra_simps)
  ultimately show ?thesis
    by (rule order_trans[rotated])
qed
lemma lambda_lin_upper:
  fixes a3 a5 b1 b4 :: real
  assumes "0 < a3" "0 \<le> a5" "a5 \<le> a3" "b1 \<le> 0.110889 * a3" "0 \<le> b1" "b4 \<le> 0.110889 * a3" "0 \<le> b4"
  shows "a3 - b1 + 0.5646 * (b4 - a5) \<le> 1.0627 * a3"
proof -
  have 1: "a3 - b1 \<le> a3 - 0"
    using assms(5) by (rule diff_left_mono)
  have "0.5646 * (b4 - a5) \<le> 0.5646 * (0.110889 * a3 - 0)"
    using assms(2,6) by (intro mult_left_mono diff_mono) simp_all
  with 1 have "a3 - b1 + 0.5646 * (b4 - a5) \<le> (a3 - 0) + 0.5646 * (0.110889 * a3 - 0)"
    by (rule add_mono)
  moreover have "(a3 - 0) + 0.5646 * (0.110889 * a3 - 0) \<le> 1.0627 * a3"
    using assms(1) by (simp add: algebra_simps)
  ultimately show ?thesis
    by (rule order_trans)
qed

lemma lambda_factor_bounds:
  fixes u w :: real
  assumes "1 < u" "u < w"
  defines "Q \<equiv> u powr 2.6 / (0.333\<^sup>2 - 1)
              * (0.333\<^sup>2 / w powr 2.6 - 1 / u powr 2.6
                 - 0.5646 * (0.333\<^sup>2 / w powr 3.6 - 1 / u powr 3.6))"
  shows "7 / 20 \<le> Q" "Q \<le> 5 / 4"
proof -
  define p1 where "p1 = u powr 2.6"
  define a3 where "a3 = 1 / u powr 2.6"
  define a1 where "a1 = 1 / w powr 2.6"
  define a4 where "a4 = 1 / w powr 3.6"
  define a5 where "a5 = 1 / u powr 3.6"
  have p: "0 < u powr 2.6" "0 < w powr 2.6" "0 < w powr 3.6" "0 < u powr 3.6"
    using assms(1,2) by simp_all
  have a3: "0 < a3"
    using p by (simp add: a3_def)
  have pa: "p1 * a3 = 1"
    using p(1) by (simp add: p1_def a3_def)
  have p1: "0 < p1"
    using p(1) by (simp add: p1_def)
  have uw: "u powr 2.6 \<le> w powr 2.6"
    using assms(1,2) by (intro powr_mono2) simp_all
  then have a1: "0 \<le> a1" "a1 \<le> a3"
    using p unfolding a1_def a3_def by (simp, intro divide_left_mono, simp_all)
  have "w powr 2.6 \<le> w powr 3.6"
    using assms(1,2) by (intro powr_mono) simp_all
  with uw have "u powr 2.6 \<le> w powr 3.6"
    by (rule order_trans)
  then have a4: "0 \<le> a4" "a4 \<le> a3"
    using p unfolding a4_def a3_def by (simp, intro divide_left_mono, simp_all)
  have "u powr 2.6 \<le> u powr 3.6"
    using assms(1) by (intro powr_mono) simp_all
  then have a5: "0 \<le> a5" "a5 \<le> a3"
    using p unfolding a5_def a3_def by (simp, intro divide_left_mono, simp_all)
  define nB where "nB = a3 - 0.110889 * a1 + 0.5646 * (0.110889 * a4 - a5)"
  have t1: "0.110889 * a1 \<le> 0.110889 * a3" "0 \<le> 0.110889 * a1"
    using a1 by simp_all
  have t4: "0.110889 * a4 \<le> 0.110889 * a3" "0 \<le> 0.110889 * a4"
    using a4 by simp_all
  define b1 where "b1 = 0.110889 * a1"
  define b4 where "b4 = 0.110889 * a4"
  have nB: "nB = a3 - b1 + 0.5646 * (b4 - a5)"
    by (simp add: nB_def b1_def b4_def)
  have b: "b1 \<le> 0.110889 * a3" "0 \<le> b1" "b4 \<le> 0.110889 * a3" "0 \<le> b4"
    using t1 t4 by (simp_all add: b1_def b4_def)
  have lo: "0.3245 * a3 \<le> nB"
    unfolding nB using a3 a5 b by (intro lambda_lin_lower)
  have hi: "nB \<le> 1.0627 * a3"
    unfolding nB using a3 a5 b by (intro lambda_lin_upper)
  have "p1 * (0.3245 * a3) \<le> p1 * nB"
    using lo p1 by (intro mult_left_mono) simp_all
  then have lo': "0.3245 \<le> p1 * nB"
    using pa by (simp add: mult.left_commute)
  have "p1 * nB \<le> p1 * (1.0627 * a3)"
    using hi p1 by (intro mult_left_mono) simp_all
  then have hi': "p1 * nB \<le> 1.0627"
    using pa by (simp add: mult.left_commute)
  have l2: "(0.333::real)\<^sup>2 = 0.110889"
    by (simp add: power2_eq_square)
  have Q: "Q = (p1 * nB) / 0.889111"
    unfolding Q_def nB_def p1_def a1_def a3_def a4_def a5_def l2
    by (simp add: field_simps)
  define z where "z = p1 * nB"
  have z: "0.3245 \<le> z" "z \<le> 1.0627"
    using lo' hi' by (simp_all add: z_def)
  have "0.3245 / 0.889111 \<le> z / 0.889111"
    using z(1) by (intro divide_right_mono) simp_all
  then have "7 / 20 \<le> z / 0.889111"
    by simp
  then show "7 / 20 \<le> Q"
    unfolding Q z_def .
  have "z / 0.889111 \<le> 1.0627 / 0.889111"
    using z(2) by (intro divide_right_mono) simp_all
  then have "z / 0.889111 \<le> 5 / 4"
    by simp
  then show "Q \<le> 5 / 4"
    unfolding Q z_def .
qed

lemma C_f_lambda_500_bounds:
  assumes "default_geometry self" "0 < M self" "M self < 1"
  shows "float_between (1 / 3500) (5 / 4) (val (C_f_lambda 500) self)"
proof -
  define \<rho> :: real where "\<rho> = 1114.45 * mach_per_fps / 12"
  have rho: "0 < \<rho>" "\<rho> < 1 / 10"
    by (simp_all add: \<rho>_def mach_per_fps_def)
  have rn: "val (R_n 500) self = fl \<rho>"
    using val_R_n_500[OF assms(1,2)] by (simp add: \<rho>_def)
  from C_f_final_500_bounds[OF assms] obtain y where
    y: "val (C_f_final 500) self = fl y" "1 / 1205 \<le> y" "y \<le> 1"
    by (rule float_betweenE)
  have g: "fin_height_short self = 0.333" "fin_height_long self = 1"
    using assms(1) by (simp_all add: default_geometry_def)
  have l: "pdiv (fl 0.333) (fl (of_int 1)) = fl 0.333"
    by (subst pdiv_fl) simp_all
  define u where "u = - log 10 \<rho>"
  define w where "w = - log 10 (\<rho> * 0.333)"
  have u: "1 < u"
  proof -
    have "log 10 \<rho> < log 10 (1 / 10)"
      using rho by (subst log_less_cancel_iff) simp_all
    also have "log 10 (1 / 10) = - 1"
      by (simp add: log_divide)
    finally show ?thesis
      by (simp add: u_def)
  qed
  have w: "u < w"
  proof -
    have "\<rho> * 0.333 < \<rho>"
      using rho(1) by simp
    then have "log 10 (\<rho> * 0.333) < log 10 \<rho>"
      using rho(1) by (subst log_less_cancel_iff) simp_all
    then show ?thesis
      by (simp add: u_def w_def)
  qed
  define Q where "Q = u powr 2.6 / (0.333\<^sup>2 - 1)
              * (0.333\<^sup>2 / w powr 2.6 - 1 / u powr 2.6
                 - 0.5646 * (0.333\<^sup>2 / w powr 3.6 - 1 / u powr 3.6))"
  have Q: "7 / 20 \<le> Q" "Q \<le> 5 / 4"
    unfolding Q_def by (rule lambda_factor_bounds[OF u w])+
  have "val (C_f_lambda 500) self = fl (y * (u powr 2.6 / (0.333\<^sup>2 - 1))
              * (0.333\<^sup>2 / w powr 2.6 - 1 / u powr 2.6
                 - 0.5646 * (0.333\<^sup>2 / w powr 3.6 - 1 / u powr 3.6)))"
    unfolding C_f_lambda_def
    apply (simp only: val_simps frames Let_def rn y g l)
    apply (simp only: lambda_value[OF rho])
    by (simp only: u_def w_def)
  then have e: "val (C_f_lambda 500) self = fl (y * Q)"
    unfolding Q_def by (simp only: mult.assoc)
  have "1 / 1205 * (7 / 20) \<le> y * Q"
    using y Q by (intro mult_mono) simp_all
  then have lo: "1 / 3500 \<le> y * Q"
    by simp
  have "y * Q \<le> 1 * (5 / 4)"
    using y Q by (intro mult_mono) simp_all
  then have hi: "y * Q \<le> 5 / 4"
    by simp
  show ?thesis
    unfolding e float_between_fl using lo hi by simp
qed

lemma float_between_weaken:
  "float_between l h a \<Longrightarrow> l' \<le> l \<Longrightarrow> h \<le> h' \<Longrightarrow> float_between l' h' a"
  by (auto elim!: float_betweenE simp: float_between_fl)

lemma float_between_pmul:
  assumes "float_between l1 h1 a" "float_between l2 h2 b" "0 \<le> l1" "0 \<le> l2"
  shows "float_between (l1 * l2) (h1 * h2) (pmul a b)"
proof -
  from assms(1) obtain x where x: "a = fl x" "l1 \<le> x" "x \<le> h1"
    by (rule float_betweenE)
  from assms(2) obtain y where y: "b = fl y" "l2 \<le> y" "y \<le> h2"
    by (rule float_betweenE)
  have "l1 * l2 \<le> x * y"
    using x(2) y(2) assms(3,4) by (intro mult_mono) simp_all
  moreover have "x * y \<le> h1 * h2"
    using x y assms(3,4) by (intro mult_mono) simp_all
  ultimately show ?thesis
    by (simp add: x(1) y(1) pmul_fl float_between_fl)
qed

lemma float_between_padd:
  assumes "float_between l1 h1 a" "float_between l2 h2 b"
  shows "float_between (l1 + l2) (h1 + h2) (padd a b)"
proof -
  from assms(1) obtain x where x: "a = fl x" "l1 \<le> x" "x \<le> h1"
    by (rule float_betweenE)
  from assms(2) obtain y where y: "b = fl y" "l2 \<le> y" "y \<le> h2"
    by (rule float_betweenE)
  show ?thesis
    using x y by (simp add: padd_fl float_between_fl add_mono)
qed

lemma S_B_upper:
  assumes "default_geometry self"
  shows "S_B self \<le> 2 * pi * 1.333"
proof -
  have a: "0.1666 \<le> ogive_a" "0 < ogive_a"
    by (simp_all add: ogive_a_def power2_eq_square)
  have "1.333 / ogive_a \<le> 1"
    by (rule ogive_area_pos(2)[where r = "0.1666"]; simp add: ogive_a_def)
  moreover have "0 \<le> 1.333 / ogive_a"
    using a(2) by simp
  ultimately have "0 \<le> arcsin (1.333 / ogive_a)"
    by (intro arcsin_nonneg) simp
  then have "(0.1666 - ogive_a) * arcsin (1.333 / ogive_a) \<le> 0"
    using a(1) by (intro mult_nonpos_nonneg) simp_all
  moreover define w where "w = (0.1666 - ogive_a) * arcsin (1.333 / ogive_a)"
  ultimately have "w \<le> 0"
    by simp
  then have "w + 1.333 \<le> 1.333"
    by simp
  moreover have "0 \<le> 2 * pi"
    by simp
  ultimately have "2 * pi * (w + 1.333) \<le> 2 * pi * 1.333"
    by (rule mult_left_mono)
  moreover have "S_B self = 2 * pi * (w + 1.333)"
    using assms by (simp only: default_geometry_def w_def)
  ultimately show ?thesis
    by (simp only:)
qed

lemma wetted_ratio_bounds:
  assumes "default_geometry self"
  shows "float_between 0 97 (pdiv (fl (4 * S_B self)) (fl (pi * (diameter self ^ 2))))"
    and "float_between 0 97 (fl (4 * S_B self / (pi * (2 * radius self) ^ 2)))"
proof -
  have d: "diameter self = 2 * 0.1666" "radius self = 0.1666"
    using assms by (simp_all add: default_geometry_def)
  define D :: real where "D = (2 * 0.1666)\<^sup>2"
  have D: "0 < D" "8 * 1.333 \<le> 97 * D"
    by (simp_all add: D_def power2_eq_square)
  have nz: "pi * D \<noteq> 0"
    using D(1) by simp
  define R where "R = 4 * S_B self / (pi * D)"
  have lo: "0 \<le> R"
    unfolding R_def using S_B_pos[OF assms] D(1) by simp
  have "4 * S_B self \<le> 4 * (2 * pi * 1.333)"
    using S_B_upper[OF assms] by simp
  then have "R \<le> 4 * (2 * pi * 1.333) / (pi * D)"
    unfolding R_def using D(1) by (intro divide_right_mono) simp_all
  also have "4 * (2 * pi * 1.333) / (pi * D) = 8 * 1.333 / D"
    by simp
  also have "8 * 1.333 / D \<le> 97"
    using D by (simp add: divide_le_eq)
  finally have hi: "R \<le> 97" .
  show "float_between 0 97 (pdiv (fl (4 * S_B self)) (fl (pi * (diameter self ^ 2))))"
    unfolding d D_def[symmetric] pdiv_fl[OF nz] float_between_fl R_def[symmetric]
    using lo hi by simp
  show "float_between 0 97 (fl (4 * S_B self / (pi * (2 * radius self) ^ 2)))"
    unfolding d D_def[symmetric] float_between_fl R_def[symmetric]
    using lo hi by simp
qed

lemma body_factor_bounds:
  "float_between 1 (11 / 10)
     (padd (padd (fl 1) (pdiv (fl 60) (ppow (pdiv (fl (5.333 + 1.333)) (fl (2 * 0.1666))) (fl 3))))
           (pmul (fl 0.0025) (pdiv (fl 5.333) (fl (2 * 0.1666)))))"
proof -
  have q: "pdiv (fl (5.333 + 1.333)) (fl (2 * 0.1666)) = fl ((5.333 + 1.333) / (2 * 0.1666))"
    by (rule pdiv_fl) simp
  have p: "ppow (fl ((5.333 + 1.333) / (2 * 0.1666))) (fl 3)
      = fl (((5.333 + 1.333) / (2 * 0.1666)) powr 3)"
    by (rule ppow_fl_pos) simp
  have p3: "((5.333 + 1.333) / (2 * 0.1666) :: real) powr 3 = ((5.333 + 1.333) / (2 * 0.1666)) ^ 3"
    by (rule powr_numeral) simp
  have nz: "((5.333 + 1.333) / (2 * 0.1666) :: real) ^ 3 \<noteq> 0"
    by simp
  have r: "pdiv (fl 5.333) (fl (2 * 0.1666)) = fl (5.333 / (2 * 0.1666))"
    by (rule pdiv_fl) simp
  show ?thesis
    unfolding q p p3 pdiv_fl[OF nz] r pmul_fl padd_fl float_between_fl
    by (simp add: power_divide)
qed

lemma body_friction_drag_500_bounds:
  assumes "default_geometry self" "0 < M self" "M self < 1"
  shows "float_between 0 107 (val (body_friction_drag 500) self)"
proof -
  have g: "body_tube_length self = 5.333" "nose_cone_length self = 1.333"
    "diameter self = 2 * 0.1666"
    using assms(1) by (simp_all add: default_geometry_def)
  have y: "float_between 0 1 (val (C_f_final 500) self)"
    using C_f_final_500_bounds[OF assms] by (rule float_between_weaken) simp_all
  have r: "float_between 0 97 (pdiv (fl (4 * S_B self)) (fl (pi * ((2 * 0.1666) ^ 2))))"
    using wetted_ratio_bounds(1)[OF assms(1)] by (simp only: g)
  have "float_between (0 * 1 * 0) (1 * (11 / 10) * 97)
     (pmul (pmul (val (C_f_final 500) self)
        (padd (padd (fl 1) (pdiv (fl 60) (ppow (pdiv (fl (5.333 + 1.333)) (fl (2 * 0.1666))) (fl 3))))
           (pmul (fl 0.0025) (pdiv (fl 5.333) (fl (2 * 0.1666))))))
        (pdiv (fl (4 * S_B self)) (fl (pi * ((2 * 0.1666) ^ 2)))))"
    by (intro float_between_pmul y r body_factor_bounds) simp_all
  then have "float_between 0 107
     (pmul (pmul (val (C_f_final 500) self)
        (padd (padd (fl 1) (pdiv (fl 60) (ppow (pdiv (fl (5.333 + 1.333)) (fl (2 * 0.1666))) (fl 3))))
           (pmul (fl 0.0025) (pdiv (fl 5.333) (fl (2 * 0.1666))))))
        (pdiv (fl (4 * S_B self)) (fl (pi * ((2 * 0.1666) ^ 2)))))"
    by (rule float_between_weaken) simp_all
  then show ?thesis
    unfolding body_friction_drag_def
    by (simp only: val_simps frames g)
qed

lemma fin_factor_bounds:
  "float_between 1 (5 / 2)
     (padd
        (padd (fl 1)
           (pmul (fl 60) (ppow (pdiv (fl 0.0833) (fl (real_of_int 1))) (fl 4))))
        (pmul
           (pmul
              (pmul (fl 0.8)
                 (padd (fl 1)
                    (pmul (fl 5) (ppow (pdiv (fl (0.333 / 8)) (fl (real_of_int 1))) (fl 2)))))
              (pdiv (fl 0.0833) (fl (real_of_int 1))))
           (pdiv
              (pmul (fl (real_of_int (4 * 4)))
                 (pdiv (fl 0.333) (fl (real_of_int 1 + 0.333))))
              (fl (pi * (2 * 0.1666) ^ 2)))))"
proof -
  have t: "pdiv (fl 0.0833) (fl (real_of_int 1)) = fl 0.0833"
    by (subst pdiv_fl) simp_all
  have x: "pdiv (fl (0.333 / 8)) (fl (real_of_int 1)) = fl (0.333 / 8)"
    by (subst pdiv_fl) simp_all
  have t4: "ppow (fl 0.0833) (fl 4) = fl (0.0833 ^ 4)"
    by (subst ppow_fl_pos) simp_all
  have x2: "ppow (fl (0.333 / 8)) (fl 2) = fl ((0.333 / 8) ^ 2)"
    by (subst ppow_fl_pos) simp_all
  have f: "pdiv (fl 0.333) (fl (real_of_int 1 + 0.333)) = fl (0.333 / 1.333)"
    by (subst pdiv_fl) simp_all
  define D :: real where "D = (2 * 0.1666)\<^sup>2"
  have D: "0 < D" "16 * (0.333 / 1.333) \<le> 19 * (2 * D)"
    by (simp_all add: D_def power2_eq_square)
  have nz: "pi * D \<noteq> 0"
    using D(1) by simp
  define Z where "Z = 16 * (0.333 / 1.333) / (pi * D)"
  have z0: "0 \<le> Z"
    unfolding Z_def using D(1) by simp
  have "2 * D \<le> pi * D"
    using pi_ge_two D(1) by (intro mult_right_mono) simp_all
  then have "16 * (0.333 / 1.333) / (pi * D) \<le> 16 * (0.333 / 1.333) / (2 * D)"
    using D(1) by (intro divide_left_mono) simp_all
  also have "16 * (0.333 / 1.333) / (2 * D) \<le> 19"
    using D by (simp only: divide_le_eq) simp
  finally have z19: "Z \<le> 19"
    unfolding Z_def .
  have z: "pdiv (pmul (fl (real_of_int (4 * 4))) (fl (0.333 / 1.333))) (fl (pi * D)) = fl Z"
    unfolding pmul_fl pdiv_fl[OF nz] Z_def by simp
  define A :: real where "A = 60 * 0.0833 ^ 4"
  define C :: real where "C = 0.8 * (1 + 5 * (0.333 / 8) ^ 2) * 0.0833"
  have A: "0 \<le> A" "A \<le> 1 / 100"
    by (simp_all add: A_def power_divide)
  have C: "0 \<le> C" "C \<le> 7 / 100"
    by (simp_all add: C_def power_divide)
  have cz: "0 \<le> C * Z" "C * Z \<le> 7 / 100 * 19"
    using C z0 z19 by (simp, intro mult_mono, simp_all)
  have e: "padd (padd (fl 1) (pmul (fl 60) (fl (0.0833 ^ 4))))
        (pmul (pmul (pmul (fl 0.8) (padd (fl 1) (pmul (fl 5) (fl ((0.333 / 8) ^ 2))))) (fl 0.0833))
           (fl Z))
      = fl (1 + A + C * Z)"
    unfolding pmul_fl padd_fl A_def C_def ..
  have "1 \<le> 1 + A + C * Z" "1 + A + C * Z \<le> 5 / 2"
    using A cz by simp_all
  then show ?thesis
    unfolding t x t4 x2 f D_def[symmetric] z e float_between_fl by simp
qed

lemma fin_friction_drag_500_bounds:
  assumes "default_geometry self" "0 < M self" "M self < 1"
  shows "float_between (1 / 3500) 4 (val (fin_friction_drag 500) self)"
proof -
  have g: "fin_thickness self = 0.0833" "fin_height_long self = 1" "fin_x self = 0.333 / 8"
    "number_of_fins self = 4" "fin_length self = 0.333" "fin_height_short self = 0.333"
    "diameter self = 2 * 0.1666"
    using assms(1) by (simp_all add: default_geometry_def)
  note c = C_f_lambda_500_bounds[OF assms]
  have "float_between (1 / 3500 * 1) (5 / 4 * (5 / 2))
     (pmul (val (C_f_lambda 500) self)
     (padd
        (padd (fl 1)
           (pmul (fl 60) (ppow (pdiv (fl 0.0833) (fl (real_of_int 1))) (fl 4))))
        (pmul
           (pmul
              (pmul (fl 0.8)
                 (padd (fl 1)
                    (pmul (fl 5) (ppow (pdiv (fl (0.333 / 8)) (fl (real_of_int 1))) (fl 2)))))
              (pdiv (fl 0.0833) (fl (real_of_int 1))))
           (pdiv
              (pmul (fl (real_of_int (4 * 4)))
                 (pdiv (fl 0.333) (fl (real_of_int 1 + 0.333))))
              (fl (pi * (2 * 0.1666) ^ 2))))))"
    by (intro float_between_pmul c fin_factor_bounds) simp_all
  then have "float_between (1 / 3500) 4
     (pmul (val (C_f_lambda 500) self)
     (padd
        (padd (fl 1)
           (pmul (fl 60) (ppow (pdiv (fl 0.0833) (fl (real_of_int 1))) (fl 4))))
        (pmul
           (pmul
              (pmul (fl 0.8)
                 (padd (fl 1)
                    (pmul (fl 5) (ppow (pdiv (fl (0.333 / 8)) (fl (real_of_int 1))) (fl 2)))))
              (pdiv (fl 0.0833) (fl (real_of_int 1))))
           (pdiv
              (pmul (fl (real_of_int (4 * 4)))
                 (pdiv (fl 0.333) (fl (real_of_int 1 + 0.333))))
              (fl (pi * (2 * 0.1666) ^ 2))))))"
    by (rule float_between_weaken) simp_all
  then show ?thesis
    unfolding fin_friction_drag_def
    by (simp only: val_simps frames g)
qed

lemma excrescencies_bounds:
  assumes "default_geometry self" "0 \<le> excrescencies_k (M self)"
    "excrescencies_k (M self) \<le> 1 / 1000"
  shows "float_between 0 (1 / 10) (val excrescencies_friction_drag self)"
proof -
  define k where "k = excrescencies_k (M self)"
  have k: "float_between 0 (1 / 1000) (fl k)"
    using assms(2,3) by (simp add: float_between_fl k_def)
  have nz: "pi * (2 * radius self) ^ 2 \<noteq> 0"
    using assms(1) by (simp add: default_geometry_def)
  have "float_between (0 * 0) (1 / 1000 * 97)
      (pmul (fl k) (fl (4 * S_B self / (pi * (2 * radius self) ^ 2))))"
    by (intro float_between_pmul k wetted_ratio_bounds(2)[OF assms(1)]) simp_all
  then have "float_between 0 (1 / 10)
      (pmul (fl k) (fl (4 * S_B self / (pi * (2 * radius self) ^ 2))))"
    by (rule float_between_weaken) simp_all
  moreover have "val excrescencies_friction_drag self
      = pmul (fl k) (fl (4 * S_B self / (pi * (2 * radius self) ^ 2)))"
    unfolding excrescencies_friction_drag_def
    by (simp only: val_simps frames Let_def pdiv_fl[OF nz] pmul_fl k_def) simp
  ultimately show ?thesis
    by (simp only:)
qed

lemma skin_friction_drag_500_bounds:
  assumes "default_geometry self" "0 < M self" "M self < 1"
    "0 \<le> excrescencies_k (M self)" "excrescencies_k (M self) \<le> 1 / 1000"
  shows "float_between (1 / 4096) 112 (val (skin_friction_drag 500) self)"
proof -
  have k: "K_f self = 1.04"
    using assms(1) by (simp add: default_geometry_def)
  note b = posf_body_friction_drag[OF assms(1-3), of 500]
  note f = posf_fin_friction_drag[OF assms(1-3)]
  have p: "val protuberance_friction_drag self = fl 0"
    by (simp add: protuberance_friction_drag_def val_simps)
  have sh: "pthen (val (body_friction_drag 500) self)
              (pthen (val (fin_friction_drag 500) self) (fl 0)) = fl 0"
    by (simp add: posf_pthen[OF b] posf_pthen[OF f])
  have kf: "float_between 1.04 1.04 (fl 1.04)"
    by (simp add: float_between_fl)
  have z: "float_between 0 0 (pmul (fl 1.04) (fl 0))"
    by (simp add: pmul_fl float_between_fl)
  have "float_between (0 + 1.04 * (1 / 3500) + 0 + 0) (107 + 1.04 * 4 + 0 + 1 / 10)
     (padd (padd (padd (val (body_friction_drag 500) self)
                 (pmul (fl 1.04) (val (fin_friction_drag 500) self)))
                 (pmul (fl 1.04) (fl 0)))
                 (val excrescencies_friction_drag self))"
    by (intro float_between_padd float_between_pmul kf z
        body_friction_drag_500_bounds[OF assms(1-3)] fin_friction_drag_500_bounds[OF assms(1-3)]
        excrescencies_bounds[OF assms(1,4,5)]) simp_all
  then have main: "float_between (1 / 4096) 112
     (padd (padd (padd (val (body_friction_drag 500) self)
                 (pmul (fl 1.04) (val (fin_friction_drag 500) self)))
                 (pmul (fl 1.04) (fl 0)))
                 (val excrescencies_friction_drag self))"
    by (rule float_between_weaken) simp_all
  show ?thesis
    unfolding skin_friction_drag_def
    by (simp only: val_simps frames frame_intros p sh pthen_fl main if_cancel k)
qed

lemma excrescencies_k_grid_upper:
  assumes "i < 100"
  shows "excrescencies_k (real i * 0.01) \<le> 1 / 1000"
proof (cases "i < 78")
  case True
  then have "real i * 0.01 < 0.78"
    by simp
  then show ?thesis
    by (simp add: excrescencies_k_def)
next
  case False
  with assms have "78 \<le> i" "i \<le> 99"
    by simp_all
  then have "i = 78 \<or> i = 79 \<or> i = 80 \<or> i = 81 \<or> i = 82 \<or> i = 83 \<or> i = 84 \<or> i = 85 \<or> i = 86 \<or> i = 87 \<or> i = 88 \<or> i = 89 \<or> i = 90 \<or> i = 91 \<or> i = 92 \<or> i = 93 \<or> i = 94 \<or> i = 95 \<or> i = 96 \<or> i = 97 \<or> i = 98 \<or> i = 99"
    by presburger
  then show ?thesis
    by (elim disjE) (simp_all add: excrescencies_k_def power_divide)
qed

lemma ppow_ge_one_neg:
  assumes "1 \<le> x" "y \<le> 0"
  shows "float_between 0 1 (ppow (fl x) (fl y))"
proof -
  have x: "0 < x"
    using assms(1) by simp
  have "x powr y \<le> x powr 0"
    using assms by (intro powr_mono) simp_all
  then have "x powr y \<le> 1"
    using x by simp
  then show ?thesis
    unfolding ppow_fl_pos[OF x] float_between_fl by simp
qed

lemma C_d_max_bounds:
  assumes "default_geometry self"
  shows "float_between 0 6 (val C_d_max self)"
proof -
  have g: "nose_cone_length self = 1.333" "body_tube_length self = 5.333" "radius self = 0.1666"
    using assms by (simp_all add: default_geometry_def)
  have q: "pdiv (fl 1.333) (fl 5.333) = fl (1.333 / 5.333)"
    by (rule pdiv_fl) simp
  have q2: "ppow (fl (1.333 / 5.333)) (fl 2) = fl ((1.333 / 5.333)\<^sup>2)"
    by (subst ppow_fl_pos) simp_all
  define cv :: real where "cv = 50.676 * (1.333 / 5.333)\<^sup>2 - 51.734 * (1.333 / 5.333) + 15.642"
  define gv :: real where
    "gv = - 2.2538 * (1.333 / 5.333)\<^sup>2 + 1.3108 * (1.333 / 5.333) - 1.7344"
  define dv :: real where "dv = (1.333 + 5.333) / (2 * 0.1666)"
  have c: "padd (psub (pmul (fl 50.676) (fl ((1.333 / 5.333)\<^sup>2)))
                 (pmul (fl 51.734) (fl (1.333 / 5.333)))) (fl 15.642) = fl cv"
    unfolding pmul_fl psub_fl padd_fl cv_def ..
  have gg: "psub (padd (pmul (fl (- 2.2538)) (fl ((1.333 / 5.333)\<^sup>2)))
                 (pmul (fl 1.3108) (fl (1.333 / 5.333)))) (fl 1.7344) = fl gv"
    unfolding pmul_fl psub_fl padd_fl gv_def ..
  have d: "pdiv (fl (1.333 + 5.333)) (fl (2 * 0.1666)) = fl dv"
    unfolding dv_def by (rule pdiv_fl) simp
  have cb: "float_between 0 6 (fl cv)"
    by (simp add: float_between_fl cv_def power_divide)
  have gn: "gv \<le> 0"
    by (simp add: gv_def power_divide)
  have d1: "1 \<le> dv"
    by (simp add: dv_def)
  have br: "float_between 0 6 (pmul (fl cv) (ppow (fl B) (fl gv)))" if "1 \<le> B" for B
  proof -
    have "float_between (0 * 0) (6 * 1) (pmul (fl cv) (ppow (fl B) (fl gv)))"
      by (intro float_between_pmul cb ppow_ge_one_neg that gn) simp_all
    then show ?thesis
      by simp
  qed
  have "float_between 0 6
      (pif (pgt (fl dv) (fl 6)) (pmul (fl cv) (ppow (fl dv) (fl gv)))
         (pmul (fl cv) (ppow (fl 6) (fl gv))))"
    using br[OF d1] br[of 6] by (simp add: pgt_fl pif_def)
  then show ?thesis
    unfolding C_d_max_def
    by (simp only: val_simps frames Let_def g q q2 c gg d)
qed

lemma transonic_wave_drag_bounds:
  assumes "default_geometry self"
  shows "float_between 0 6 (val transonic_wave_drag self)"
proof -
  from isfl_M_d[OF assms] obtain md where md: "val M_d self = fl md"
    by (rule isflE)
  from isfl_M_f[OF assms] obtain mf where mf: "val M_f self = fl mf"
    by (rule isflE)
  note c = C_d_max_bounds[OF assms]
  show ?thesis
    unfolding transonic_wave_drag_def
    by (simp add: val_simps frames frame_intros md mf ple_fl c float_between_fl
        split: bool.splits)
qed

lemma base_drag_500_bounds:
  assumes "default_geometry self" "0 < M self" "M self < 1"
    "0 \<le> excrescencies_k (M self)" "excrescencies_k (M self) \<le> 1 / 1000"
  shows "float_between 0 8 (val (base_drag 500) self)"
proof -
  from skin_friction_drag_500_bounds[OF assms] obtain s where
    s: "val (skin_friction_drag 500) self = fl s" "1 / 4096 \<le> s" "s \<le> 112"
    by (rule float_betweenE)
  have sp: "0 < s"
    using s(2) by simp
  have g: "radius self \<noteq> 0" "diameter self \<noteq> 0"
    "0 < body_tube_length self / diameter self" "0 < boat_tail_radius self / radius self"
    using assms(1) by (simp_all add: default_geometry_def)
  have r1: "boat_tail_radius self / radius self = 1"
    using assms(1) by (simp add: default_geometry_def)
  define atn where "atn = arctan (body_tube_length self / diameter self + 0.0116)"
  define n where "n = 3.6542 * (body_tube_length self / diameter self) powr (- 0.2733)"
  define mult where "mult = (if M self > 0.6 then
              (if M self < 1 then 1 + 215.8 * (M self - 0.6) ^ 6
               else if M self < 2 then
                 2.0881 * ((M self - 1) ^ 3) - 3.7938 * ((M self - 1) ^ 2)
                   + 1.4618 * (M self - 1) + 1.883917
               else 0.297 * (M self - 2) ^ 3 - 0.7937 * (M self - 2) ^ 2
                   - 0.1115 * (M self - 2) + 1.64006)
            else 1)"
  have e: "val (base_drag 500) self = pmul (fl (0.0274 * atn * (1 powr n / sqrt s))) (fl mult)"
    unfolding val_base_drag[OF g s(1) sp] r1 atn_def n_def mult_def ..
  have atn: "0 < atn" "atn \<le> 2"
  proof -
    show "0 < atn"
      unfolding atn_def using g(3) by (simp add: zero_less_arctan_iff add_pos_pos)
    have "atn < pi / 2"
      unfolding atn_def by (rule arctan_ubound)
    also have "pi / 2 < 2"
      using pi_less_4 by simp
    finally show "atn \<le> 2"
      by simp
  qed
  have "sqrt (1 / 4096) \<le> sqrt s"
    using s(2) by (simp only: real_sqrt_le_iff)
  moreover have "sqrt (1 / 4096) = 1 / 64"
    by (rule real_sqrt_unique) (simp_all add: power2_eq_square)
  ultimately have sq: "1 / 64 \<le> sqrt s"
    by simp
  define r where "r = 1 / sqrt s"
  have r: "0 \<le> r" "r \<le> 64"
  proof -
    show "0 \<le> r"
      unfolding r_def using sp by simp
    have "1 / sqrt s \<le> 1 / (1 / 64)"
      using sq sp by (intro divide_left_mono) simp_all
    then show "r \<le> 64"
      unfolding r_def by simp
  qed
  have kb: "float_between 0 (0.0274 * 2 * 64) (fl (0.0274 * atn * (1 powr n / sqrt s)))"
  proof -
    have "0.0274 * atn \<le> 0.0274 * 2"
      using atn(2) by (intro mult_left_mono) simp_all
    moreover have "0 \<le> 0.0274 * atn"
      using atn(1) by simp
    ultimately have "0.0274 * atn * r \<le> 0.0274 * 2 * 64" "0 \<le> 0.0274 * atn * r"
      using r by (intro mult_mono, simp_all)
    then show ?thesis
      unfolding float_between_fl r_def by simp
  qed
  have m: "float_between 1 2 (fl mult)"
  proof (cases "M self > 0.6")
    case True
    then have "0 \<le> M self - 0.6" "M self - 0.6 \<le> 0.4"
      using assms(3) by simp_all
    then have "(M self - 0.6) ^ 6 \<le> 0.4 ^ 6" "0 \<le> (M self - 0.6) ^ 6"
      by (intro power_mono, simp_all)
    then have "215.8 * (M self - 0.6) ^ 6 \<le> 215.8 * 0.4 ^ 6" "0 \<le> 215.8 * (M self - 0.6) ^ 6"
      by (intro mult_left_mono, simp_all)
    moreover have "215.8 * 0.4 ^ 6 \<le> (1::real)"
      by (simp add: power_divide)
    ultimately have "1 \<le> 1 + 215.8 * (M self - 0.6) ^ 6" "1 + 215.8 * (M self - 0.6) ^ 6 \<le> 2"
      by linarith+
    then show ?thesis
      unfolding mult_def float_between_fl using True assms(3) by (simp only: if_True)
  next
    case False
    then show ?thesis
      unfolding mult_def float_between_fl by simp
  qed
  have "float_between (0 * 1) (0.0274 * 2 * 64 * 2)
      (pmul (fl (0.0274 * atn * (1 powr n / sqrt s))) (fl mult))"
    by (intro float_between_pmul kb m) simp_all
  then show ?thesis
    unfolding e by (rule float_between_weaken) simp_all
qed

lemma drag_coefficient_500_bounds:
  assumes "default_geometry self" "0 < M self" "M self < 1"
    "0 \<le> excrescencies_k (M self)" "excrescencies_k (M self) \<le> 1 / 1000"
  shows "float_between 0 130 (val (drag_coefficient 500) self)"
proof -
  note s = posf_skin_friction_drag[OF assms(1-4)]
  note b = posf_base_drag[OF assms(1-4)]
  note t = nonnegf_transonic_wave_drag[OF assms(1)]
  have w: "val supersonic_wave_drag self = fl 0"
    by (simp add: supersonic_wave_drag_def val_simps)
  have sh: "pthen (val (skin_friction_drag 500) self)
              (pthen (val (base_drag 500) self)
                 (pthen (val transonic_wave_drag self) (fl 0))) = fl 0"
    by (simp add: posf_pthen[OF s] posf_pthen[OF b] nonnegf_pthen[OF t])
  have z: "float_between 0 0 (fl 0)"
    by (simp add: float_between_fl)
  have "float_between (1 / 4096 + 0 + 0 + 0) (112 + 8 + 6 + 0)
     (padd (padd (padd (val (skin_friction_drag 500) self)
                 (val (base_drag 500) self)) (val transonic_wave_drag self)) (fl 0))"
    by (intro float_between_padd z skin_friction_drag_500_bounds[OF assms]
        base_drag_500_bounds[OF assms] transonic_wave_drag_bounds[OF assms(1)])
  then have main: "float_between 0 130
     (padd (padd (padd (val (skin_friction_drag 500) self)
                 (val (base_drag 500) self)) (val transonic_wave_drag self)) (fl 0))"
    by (rule float_between_weaken) simp_all
  show ?thesis
    unfolding drag_coefficient_def
    by (simp add: val_simps frames frame_intros w sh pthen_fl main)
qed

lemma sweep_instance:
  assumes "i < 100"
  shows "default_geometry (Rocket_init vb (real i * 0.01))"
    and "0 < M (Rocket_init vb (real i * 0.01))"
    and "M (Rocket_init vb (real i * 0.01)) < 1"
    and "0 \<le> excrescencies_k (M (Rocket_init vb (real i * 0.01)))"
    and "excrescencies_k (M (Rocket_init vb (real i * 0.01))) \<le> 1 / 1000"
proof -
  let ?r = "Rocket_init vb (real i * 0.01)"
  show "default_geometry ?r"
    by (rule default_geometry_init)
  have m: "0 \<le> real i * 0.01" "real i * 0.01 < 1"
    using assms by simp_all
  show "0 < M ?r" "M ?r < 1"
    using init_M_range[OF m] by simp_all
  show "0 \<le> excrescencies_k (M ?r)"
  proof (cases "i = 0")
    case True
    then show ?thesis
      by (simp add: Rocket_init_def mach_per_fps_def excrescencies_k_def)
  next
    case False
    then have "M ?r = real i * 0.01"
      by (simp add: Rocket_init_def)
    then show ?thesis
      using excrescencies_k_grid[OF assms] by (simp only:)
  qed
  show "excrescencies_k (M ?r) \<le> 1 / 1000"
  proof (cases "i = 0")
    case True
    then show ?thesis
      by (simp add: Rocket_init_def mach_per_fps_def excrescencies_k_def)
  next
    case False
    then have "M ?r = real i * 0.01"
      by (simp add: Rocket_init_def)
    then show ?thesis
      using excrescencies_k_grid_upper[OF assms] by (simp only:)
  qed
qed

lemma sweep_values:
  assumes "\<forall>m \<in> set ms. val (drag_coefficient h) (Rocket_init False m) \<noteq> None"
  shows "sweep h ms = Some (map (\<lambda>m. the (val (drag_coefficient h) (Rocket_init False m))) ms)"
  using assms by (induction ms) auto

text \<open>
  Claim C2. With floats read as reals: for every \<open>i\<close> from 0 to 99 the constructor
  of \<open>Rocket(mach = 0.01 i)\<close> evaluates the wetted area without an exception, and the
  instance evaluates \<open>drag_coefficient(h = 500)\<close> without an exception to a float
  between 0 and 130; on the same instance the skin friction is a float between 1/4096
  and 112, the base drag a float between 0 and 8 and the transonic wave drag a float
  between 0 and 6. The sweep of the driver returns the list of these 100 drag
  coefficients, in the order of \<open>i\<close>.
\<close>

theorem drag_sweep_defined:
  "\<exists>ds. drags = Some ds \<and> length ds = 100 \<and>
     (\<forall>i<100. Rocket_init_S_B = fl (S_B (Rocket_init False (real i * 0.01))) \<and>
              val (drag_coefficient 500) (Rocket_init False (real i * 0.01)) = Some (ds ! i) \<and>
              float_between 0 130 (Some (ds ! i)) \<and>
              float_between (1 / 4096) 112
                (val (skin_friction_drag 500) (Rocket_init False (real i * 0.01))) \<and>
              float_between 0 8 (val (base_drag 500) (Rocket_init False (real i * 0.01))) \<and>
              float_between 0 6 (val transonic_wave_drag (Rocket_init False (real i * 0.01))))"
proof -
  define f where "f = (\<lambda>m. the (val (drag_coefficient 500) (Rocket_init False m)))"
  have b: "float_between 0 130 (val (drag_coefficient 500) (Rocket_init False (real i * 0.01)))"
    if "i < 100" for i
    by (rule drag_coefficient_500_bounds[OF sweep_instance[OF that]])
  have s: "float_between (1 / 4096) 112
      (val (skin_friction_drag 500) (Rocket_init False (real i * 0.01)))"
    if "i < 100" for i
    by (rule skin_friction_drag_500_bounds[OF sweep_instance[OF that]])
  have bd: "float_between 0 8 (val (base_drag 500) (Rocket_init False (real i * 0.01)))"
    if "i < 100" for i
    by (rule base_drag_500_bounds[OF sweep_instance[OF that]])
  have t: "float_between 0 6 (val transonic_wave_drag (Rocket_init False (real i * 0.01)))"
    if "i < 100" for i
    by (rule transonic_wave_drag_bounds[OF sweep_instance(1)[OF that]])
  have v: "val (drag_coefficient 500) (Rocket_init False (real i * 0.01))
      = Some (f (real i * 0.01))" if "i < 100" for i
    using b[OF that] by (auto simp: f_def float_between_def split: option.splits)
  have "\<forall>m \<in> set machs. val (drag_coefficient 500) (Rocket_init False m) \<noteq> None"
    using v by (auto simp: machs_def)
  from sweep_values[OF this] have d: "drags = Some (map f machs)"
    by (simp add: drags_def f_def)
  have n: "map f machs ! i = f (real i * 0.01)" if "i < 100" for i
    using that by (simp add: machs_def)
  have l: "length (map f machs) = 100"
    by (simp add: machs_def)
  have "Rocket_init_S_B = fl (S_B (Rocket_init False (real i * 0.01))) \<and>
        val (drag_coefficient 500) (Rocket_init False (real i * 0.01))
          = Some (map f machs ! i) \<and>
        float_between 0 130 (Some (map f machs ! i)) \<and>
        float_between (1 / 4096) 112
          (val (skin_friction_drag 500) (Rocket_init False (real i * 0.01))) \<and>
        float_between 0 8 (val (base_drag 500) (Rocket_init False (real i * 0.01))) \<and>
        float_between 0 6 (val transonic_wave_drag (Rocket_init False (real i * 0.01)))"
    if i: "i < 100" for i
  proof -
    have "float_between 0 130 (Some (map f machs ! i))"
      using b[OF i] unfolding v[OF i] n[OF i] .
    then show ?thesis
      using v[OF i] n[OF i] s[OF i] bd[OF i] t[OF i] Rocket_init_S_B_defined by simp
  qed
  with d l show ?thesis
    by blast
qed

theorem drag_sweep_defined_witness:
  "\<exists>d. val (drag_coefficient 500) (Rocket_init False (real 50 * 0.01)) = Some d \<and>
       float_between 0 130 (Some d) \<and>
       float_between (1 / 4096) 112
         (val (skin_friction_drag 500) (Rocket_init False (real 50 * 0.01))) \<and>
       Rocket_init_S_B = fl (S_B (Rocket_init False (real 50 * 0.01)))"
proof -
  have "(50::nat) < 100"
    by simp
  with drag_sweep_defined show ?thesis
    by blast
qed

end
